theory Spec2Isabelle
  imports
    Main
    "HOL-Library.Word"
    "HOL-Library.Char_ord"
    "HOL-Library.List_Lexorder"
    "HOL-Library.Multiset"
begin

section \<open>Platform vocabulary\<close>

text \<open>
  The sources are TypeScript.  A string is modelled as a list of code units in the
  range 0..255 (\<^typ>\<open>string\<close>); a number that holds a story id, a time value or an HTTP
  status is modelled as an \<^typ>\<open>int\<close> (the values are integral and far below
  \<open>2^53\<close>, where the double arithmetic of the platform is exact).  A value that may
  be \<open>null\<close> or \<open>undefined\<close> is an \<^typ>\<open>'a option\<close>.

  \<open>Date.parse\<close> is a platform function: it is a parameter \<open>dateParse\<close> of every
  definition that calls it, with \<open>None\<close> standing for the result \<open>NaN\<close>.
  \<open>Date.now()\<close> and \<open>new Date().toISOString()\<close> are parameters as well.
\<close>

type_synonym timeParser = "string \<Rightarrow> int option"

text \<open>\<open>Array.prototype.slice(start)\<close> and \<open>slice(start, end)\<close>, negative indices counting
  from the end.\<close>

definition relIndex :: "int \<Rightarrow> nat \<Rightarrow> nat" where
  "relIndex k n = (if k < 0 then nat (max (int n + k) 0) else min (nat k) n)"

definition array_slice_from :: "int \<Rightarrow> 'a list \<Rightarrow> 'a list" where
  "array_slice_from start xs = drop (relIndex start (length xs)) xs"

definition array_slice :: "int \<Rightarrow> int \<Rightarrow> 'a list \<Rightarrow> 'a list" where
  "array_slice start end xs =
     (let n = length xs; a = relIndex start n; b = relIndex end n
      in take (b - a) (drop a xs))"

text \<open>\<open>Array.prototype.join(sep)\<close> on an array of strings.\<close>

fun join :: "string \<Rightarrow> string list \<Rightarrow> string" where
  "join sep [] = []"
| "join sep [x] = x"
| "join sep (x # y # ys) = x @ sep @ join sep (y # ys)"

text \<open>\<open>Number.prototype.toString(radix)\<close> on a non-negative integer, digits \<open>0-9a-z\<close>,
  and the decimal rendering of an integer by a template literal.\<close>

definition digitChar :: "nat \<Rightarrow> char" where
  "digitChar d = (if d < 10 then char_of (48 + d) else char_of (87 + d))"

function toStringRadix :: "int \<Rightarrow> int \<Rightarrow> string" where
  "toStringRadix radix n =
     (if n < radix \<or> radix < 2 then [digitChar (nat n)]
      else toStringRadix radix (n div radix) @ [digitChar (nat (n mod radix))])"
  by pat_completeness auto
termination
proof (relation "measure (\<lambda>(radix, n). nat n)")
  show "wf (measure (\<lambda>(radix, n). nat n))"
    by simp
next
  fix radix n :: int
  assume "\<not> (n < radix \<or> radix < 2)"
  then have r: "2 \<le> radix" and n: "radix \<le> n"
    by simp_all
  then have "n div radix < n"
    by (simp add: int_div_less_self)
  moreover have "0 \<le> n div radix"
    using r n by (simp add: pos_imp_zdiv_nonneg_iff)
  ultimately show "((radix, n div radix), (radix, n)) \<in> measure (\<lambda>(radix, n). nat n)"
    by simp
qed

declare toStringRadix.simps [simp del]

definition numberToString :: "int \<Rightarrow> string" where
  "numberToString n =
     (if n < 0 then CHR ''-'' # toStringRadix 10 (- n) else toStringRadix 10 n)"

text \<open>
  \<open>Array.prototype.sort(compare)\<close>.  The sort is stable, and a comparator result of
  \<open>NaN\<close> counts as \<open>0\<close>; the comparators below return \<open>0\<close> in that case.  When the
  comparator orders the elements consistently the result is determined: it is the one
  stable arrangement, computed here by insertion from the right.  When it does not
  (a \<open>changedAt\<close> that does not parse among ones that do), the standard leaves the order
  to the implementation, and the function below gives one rearrangement where the
  platform may give another.  The statements below rely there only on what every
  implementation shares: the result is a rearrangement of the input, equal inputs give
  equal results, and an input in which no element is put before an earlier one is
  returned as it is.
\<close>

fun insertBy :: "('a \<Rightarrow> 'a \<Rightarrow> int) \<Rightarrow> 'a \<Rightarrow> 'a list \<Rightarrow> 'a list" where
  "insertBy compare x [] = [x]"
| "insertBy compare x (y # ys) =
     (if compare x y \<le> 0 then x # y # ys else y # insertBy compare x ys)"

definition array_sort :: "('a \<Rightarrow> 'a \<Rightarrow> int) \<Rightarrow> 'a list \<Rightarrow> 'a list" where
  "array_sort compare xs = foldr (insertBy compare) xs []"

text \<open>
  A \<open>Map\<close> keeps its keys in the order of their first insertion; \<open>set\<close> on a key that
  is present replaces the value in place.  \<open>Map_values\<close> is \<open>[...map.values()]\<close>.
\<close>

fun Map_set :: "'k \<Rightarrow> 'v \<Rightarrow> ('k \<times> 'v) list \<Rightarrow> ('k \<times> 'v) list" where
  "Map_set k v [] = [(k, v)]"
| "Map_set k v ((k', v') # m) =
     (if k' = k then (k, v) # m else (k', v') # Map_set k v m)"

definition Map_values :: "('k \<times> 'v) list \<Rightarrow> 'v list" where
  "Map_values m = map snd m"

text \<open>\<open>String.prototype.trim\<close>, \<open>toLowerCase\<close> and \<open>replace(/[\s_]+/g, "-")\<close> on code units
  below 256: the white space there is tab, line feed, vertical tab, form feed, carriage
  return, space and no-break space; the letters with a lower case are \<open>A-Z\<close> and
  \<open>U+00C0-U+00DE\<close> without the multiplication sign.\<close>

definition isWhiteSpace :: "char \<Rightarrow> bool" where
  "isWhiteSpace c \<longleftrightarrow> (of_char c :: nat) \<in> {9, 10, 11, 12, 13, 32, 160}"

definition trim :: "string \<Rightarrow> string" where
  "trim s = rev (dropWhile isWhiteSpace (rev (dropWhile isWhiteSpace s)))"

definition lowerChar :: "char \<Rightarrow> char" where
  "lowerChar c =
     (let n = (of_char c :: nat)
      in if (65 \<le> n \<and> n \<le> 90) \<or> (192 \<le> n \<and> n \<le> 222 \<and> n \<noteq> 215)
         then char_of (n + 32) else c)"

definition toLowerCase :: "string \<Rightarrow> string" where
  "toLowerCase s = map lowerChar s"

definition isSpaceOrUnderscore :: "char \<Rightarrow> bool" where
  "isSpaceOrUnderscore c \<longleftrightarrow> isWhiteSpace c \<or> c = CHR ''_''"

function replaceRunsWithHyphen :: "string \<Rightarrow> string" where
  "replaceRunsWithHyphen [] = []"
| "replaceRunsWithHyphen (c # cs) =
     (if isSpaceOrUnderscore c
      then CHR ''-'' # replaceRunsWithHyphen (dropWhile isSpaceOrUnderscore cs)
      else c # replaceRunsWithHyphen cs)"
  by pat_completeness auto
termination
  by (relation "measure length") (auto simp: length_dropWhile_le less_Suc_eq_le)

section \<open>Data model (types.ts)\<close>

text \<open>
  A \<open>StoryChange\<close> carries, besides the fields below, the display fields resolved from
  the live stories and the metadata lookups (formatted id, name, owner, status, ready
  flag, schedule states, project name, url).  None of them is read by the operations
  modelled here; they travel in the extension slot of the record.
\<close>

record StoryChange =
  changeId :: string
  storyObjectId :: int
  changedAt :: string
  changedFields :: "string list"
  changedBy :: "string option"

record TestingRequiredStoryRef =
  ref_storyObjectId :: int
  ref_formattedId :: string

record TrackerPersistedState =
  scopeKey :: string
  cursor :: "string option"
  seenChangeIds :: "string list"
  lastNotificationAt :: "string option"
  history :: "StoryChange list"
  lastCheckedAt :: "string option"
  testingRequiredStories :: "TestingRequiredStoryRef list"

text \<open>\<open>TrackerConfig\<close> (\<open>StoredTracker\<close>): \<open>Config\<close> without the API key, plus the tracker's
  own id, name, project names and creation time.\<close>

record TrackerConfig =
  tracker_id :: string
  tracker_name :: string
  projectNames :: "string list"
  createdAt :: string
  baseUrl :: string
  workspaceOid :: string
  projectOids :: "string list"
  iterationOid :: string
  iterationName :: string
  iterationStartDate :: string
  pollIntervalMinutes :: nat
  timezone :: string

record SprintStory =
  story_storyObjectId :: int
  story_formattedId :: string
  story_name :: string
  story_ownerName :: "string option"
  story_statusName :: "string option"
  story_ready :: "bool option"
  story_scheduleState :: "string option"
  story_projectName :: string
  story_url :: string

text \<open>\<open>PollResult\<close>; the measured latency \<open>apiLatencyMs\<close> is left out.\<close>

record PollResult =
  currentStories :: "SprintStory list"
  newChanges :: "StoryChange list"
  result_cursor :: string
  errors :: "string list option"

text \<open>What a rejected promise carries: the client's \<open>RallyAuthError\<close>, a plain \<open>Error\<close>,
  or the \<open>RangeError\<close> of \<open>toISOString\<close> on an invalid date.\<close>

datatype error = RallyAuthError string | Error string | RangeError

section \<open>Tracker state store (appState.ts)\<close>

definition retentionMs :: int where
  "retentionMs = 45 * 24 * 60 * 60 * 1000"

text \<open>\<open>trimTrackerState\<close>; \<open>now\<close> is the value of \<open>Date.now()\<close>.\<close>

definition trimTrackerState ::
  "timeParser \<Rightarrow> int \<Rightarrow> TrackerPersistedState \<Rightarrow> TrackerPersistedState" where
  "trimTrackerState dateParse now state =
     state\<lparr>
       history :=
         filter (\<lambda>entry. case dateParse (changedAt entry) of
                            None \<Rightarrow> False
                          | Some ts \<Rightarrow> now - ts \<le> retentionMs)
                (history state),
       seenChangeIds := array_slice_from (- 2000) (seenChangeIds state)\<rparr>"

text \<open>\<open>createScopeKey\<close>.  \<open>Array.prototype.sort()\<close> without a comparator orders strings
  by their code units, which is the lexicographic order of \<^typ>\<open>string\<close>.\<close>

definition createScopeKey :: "'a TrackerConfig_scheme \<Rightarrow> string" where
  "createScopeKey config =
     (let sortedProjects = join '','' (sort (projectOids config))
      in workspaceOid config @ ''|'' @ sortedProjects @ ''|'' @ iterationOid config)"

text \<open>\<open>DEFAULT_TRACKER_STATE\<close> (constants.ts) and \<open>createFreshTrackerState\<close>; \<open>x || null\<close>
  is \<open>null\<close> for the empty string.\<close>

definition DEFAULT_TRACKER_STATE :: TrackerPersistedState where
  "DEFAULT_TRACKER_STATE =
     \<lparr>scopeKey = [], cursor = None, seenChangeIds = [], lastNotificationAt = None,
      history = [], lastCheckedAt = None, testingRequiredStories = []\<rparr>"

definition createFreshTrackerState :: "string \<Rightarrow> string \<Rightarrow> TrackerPersistedState" where
  "createFreshTrackerState key startDate =
     DEFAULT_TRACKER_STATE\<lparr>
       scopeKey := key,
       cursor := (if startDate = [] then None else Some startDate)\<rparr>"

text \<open>The comparator \<open>(a, b) => Date.parse(b.changedAt) - Date.parse(a.changedAt)\<close>.\<close>

definition byChangedAtDesc ::
  "timeParser \<Rightarrow> 'a StoryChange_scheme \<Rightarrow> 'a StoryChange_scheme \<Rightarrow> int" where
  "byChangedAtDesc dateParse a b =
     (case (dateParse (changedAt b), dateParse (changedAt a)) of
        (Some tb, Some ta) \<Rightarrow> tb - ta
      | _ \<Rightarrow> 0)"

definition mergeHistory ::
  "timeParser \<Rightarrow> 'a StoryChange_scheme list \<Rightarrow> 'a StoryChange_scheme list
     \<Rightarrow> 'a StoryChange_scheme list" where
  "mergeHistory dateParse existing incoming =
     (let m0 = fold (\<lambda>change m. Map_set (changeId change) change m) existing [];
          m1 = fold (\<lambda>change m. Map_set (changeId change) change m) incoming m0
      in array_sort (byChangedAtDesc dateParse) (Map_values m1))"

text \<open>Ids that do not contain the separators of the scope key: no \<open>|\<close> in the workspace
  id, and project ids that are non-empty without \<open>|\<close> and \<open>,\<close>.\<close>

definition separatorFree :: "'a TrackerConfig_scheme \<Rightarrow> bool" where
  "separatorFree config \<longleftrightarrow>
     CHR ''|'' \<notin> set (workspaceOid config)
     \<and> (\<forall>p \<in> set (projectOids config).
           p \<noteq> [] \<and> CHR ''|'' \<notin> set p \<and> CHR '','' \<notin> set p)"

section \<open>Notification engine (notificationEngine.ts)\<close>

text \<open>
  What the engine reads from its host: whether the desktop shell is present, whether the
  browser has a \<open>Notification\<close> constructor, the browser's stored permission and its
  answer to a permission request, and the shell's two answers.
\<close>

datatype permission = Granted | Denied | Default

record host =
  tauriAvailable :: bool
  notificationDefined :: bool
  browserPermission :: permission
  browserRequestResult :: permission
  shellPermissionGranted :: bool
  shellRequestResult :: permission

record notification =
  title :: string
  body :: string
  tag :: string

text \<open>A dispatched notification: the browser's \<open>new Notification(title, {body, tag,
  requireInteraction: true})\<close> or the shell's \<open>sendNotification({title, body, autoCancel:
  false, ongoing: true})\<close>.\<close>

datatype dispatched =
    BrowserNotification string string string
  | ShellNotification string string

text \<open>\<open>ensurePermission\<close>: takes and returns the engine's \<open>permissionReady\<close> flag.\<close>

definition ensurePermission :: "host \<Rightarrow> bool \<Rightarrow> bool \<times> bool" where
  "ensurePermission h permissionReady =
     (if permissionReady then (True, permissionReady)
      else if \<not> tauriAvailable h then
        (if \<not> notificationDefined h then (False, permissionReady)
         else if browserPermission h = Granted then (True, True)
         else if browserPermission h = Denied then (False, permissionReady)
         else (browserRequestResult h = Granted, browserRequestResult h = Granted))
      else
        (let permissionGranted =
               (if \<not> shellPermissionGranted h then shellRequestResult h = Granted
                else shellPermissionGranted h)
         in (permissionGranted, permissionGranted)))"

definition dispatchNotification :: "host \<Rightarrow> notification \<Rightarrow> dispatched" where
  "dispatchNotification h n =
     (if \<not> tauriAvailable h then BrowserNotification (title n) (body n) (tag n)
      else ShellNotification (title n) (body n))"

definition addedNotification :: "TestingRequiredStoryRef \<Rightarrow> notification" where
  "addedNotification story =
     \<lparr>title = ref_formattedId story,
      body = ref_formattedId story @ '' is ready for validation.'',
      tag = ''testing-required-added-'' @ numberToString (ref_storyObjectId story)\<rparr>"

definition removedNotification :: "TestingRequiredStoryRef \<Rightarrow> notification" where
  "removedNotification story =
     \<lparr>title = ref_formattedId story,
      body = ref_formattedId story @ '' is no longer ready for validation.'',
      tag = ''testing-required-removed-'' @ numberToString (ref_storyObjectId story)\<rparr>"

definition summaryNotification :: "notification list \<Rightarrow> notification" where
  "summaryNotification notifications =
     (let ids = join '', '' (map title (array_slice 0 5 notifications))
      in \<lparr>title = ''Testing required updated'',
          body = ''Stories changed: '' @ ids
                   @ (if length notifications > 5 then '', ...'' else []),
          tag = ''testing-required-summary''\<rparr>)"

text \<open>\<open>notifyTestingRequiredChange\<close>: returns the notifications dispatched, in order, and
  the new \<open>permissionReady\<close> flag.\<close>

definition notifyTestingRequiredChange ::
  "host \<Rightarrow> bool \<Rightarrow> TestingRequiredStoryRef list \<Rightarrow> TestingRequiredStoryRef list
     \<Rightarrow> dispatched list \<times> bool" where
  "notifyTestingRequiredChange h permissionReady addedStories removedStories =
     (if length addedStories = 0 \<and> length removedStories = 0 then ([], permissionReady)
      else
        (let (canNotify, ready') = ensurePermission h permissionReady
         in if \<not> canNotify then ([], ready')
            else
              (let notifications =
                     map addedNotification addedStories @ map removedNotification removedStories
               in if length notifications = 0 then ([], ready')
                  else if length notifications > 5
                    then ([dispatchNotification h (summaryNotification notifications)], ready')
                  else (map (dispatchNotification h) notifications, ready'))))"

section \<open>Remote data client (rallyClient.ts)\<close>

definition MAX_RETRIES :: nat where
  "MAX_RETRIES = 3"

definition backoffMs :: "nat \<Rightarrow> int" where
  "backoffMs attempt = min 4000 (500 * 2 ^ attempt)"

text \<open>
  What one call of \<open>transportRequest\<close> does: it throws, or it returns a response with
  a status and a body.  A request makes one such call per attempt, so the transport is
  a function of the attempt number.  \<open>JSON.parse\<close> is the parameter \<open>jsonParse\<close>, with
  \<open>None\<close> for a body that is not JSON.
\<close>

datatype transportOutcome =
    TransportThrew string
  | TransportResponded int string

text \<open>
  \<open>RallyClient.request\<close>: the result, and the delays slept between the attempts, in
  order.  \<open>afterSleep\<close> is \<open>await sleep(backoffMs(attempt)); return
  this.request(url, init, attempt + 1)\<close>: the recursive call is returned without
  \<open>await\<close>, so a rejection of the inner request is not caught again by the outer
  \<open>catch\<close>.  An error thrown in the \<open>try\<close> block other than the \<open>RallyAuthError\<close>
  reaches the \<open>catch\<close> block, which retries while \<open>attempt < MAX_RETRIES\<close> and
  rethrows otherwise; that block is written out at each of the three places it is
  reached from.
\<close>

definition afterSleep :: "nat \<Rightarrow> (error + 'j) \<times> int list \<Rightarrow> (error + 'j) \<times> int list" where
  "afterSleep attempt inner = (fst inner, backoffMs attempt # snd inner)"

function request ::
  "(nat \<Rightarrow> transportOutcome) \<Rightarrow> (string \<Rightarrow> 'j option) \<Rightarrow> nat \<Rightarrow> (error + 'j) \<times> int list" where
  "request transport jsonParse attempt =
     (case transport attempt of
        TransportThrew message \<Rightarrow>
          (if attempt < MAX_RETRIES
           then afterSleep attempt (request transport jsonParse (attempt + 1))
           else (Inl (Error message), []))
      | TransportResponded status responseBody \<Rightarrow>
          (if status = 401 \<or> status = 403
             then (Inl (RallyAuthError ''Invalid or unauthorized Rally API key''), [])
           else if (status = 429 \<or> status \<ge> 500) \<and> attempt < MAX_RETRIES
             then afterSleep attempt (request transport jsonParse (attempt + 1))
           else if status < 200 \<or> status \<ge> 300
             then (if attempt < MAX_RETRIES
                   then afterSleep attempt (request transport jsonParse (attempt + 1))
                   else (Inl (Error (''Rally request failed ('' @ numberToString status
                                       @ ''): '' @ responseBody)), []))
           else (case jsonParse responseBody of
                   Some v \<Rightarrow> (Inr v, [])
                 | None \<Rightarrow>
                     (if attempt < MAX_RETRIES
                      then afterSleep attempt (request transport jsonParse (attempt + 1))
                      else (Inl (Error (''Rally request returned non-JSON body (''
                                          @ numberToString status @ '')'')), [])))))"
  by pat_completeness auto
termination
  by (relation "measure (\<lambda>(transport, jsonParse, attempt). MAX_RETRIES - attempt)") auto

declare request.simps [simp del]

definition isAuthStatus :: "transportOutcome \<Rightarrow> bool" where
  "isAuthStatus outcome \<longleftrightarrow>
     (case outcome of
        TransportThrew message \<Rightarrow> False
      | TransportResponded status responseBody \<Rightarrow> status = 401 \<or> status = 403)"

definition isTransient :: "transportOutcome \<Rightarrow> bool" where
  "isTransient outcome \<longleftrightarrow>
     (case outcome of
        TransportThrew message \<Rightarrow> True
      | TransportResponded status responseBody \<Rightarrow> status = 429 \<or> status \<ge> 500)"

definition isRallyAuthError :: "error + 'j \<Rightarrow> bool" where
  "isRallyAuthError r \<longleftrightarrow>
     (case r of Inl (RallyAuthError message) \<Rightarrow> True | _ \<Rightarrow> False)"

definition isOtherError :: "error + 'j \<Rightarrow> bool" where
  "isOtherError r \<longleftrightarrow> (case r of Inl (Error message) \<Rightarrow> True | _ \<Rightarrow> False)"

text \<open>
  \<open>fetchStoriesInIteration\<close>, given what the awaited calls resolved to: the iteration
  ids from \<open>resolveIterationOids\<close>, and for each project the stories
  \<open>fetchStoriesForQuery\<close> returned for the query by iteration id (\<open>storiesById\<close>) and
  for the query by iteration name (\<open>storiesByName\<close>).
\<close>

definition fetchStoriesInIteration ::
  "'a TrackerConfig_scheme \<Rightarrow> string list \<Rightarrow> int list \<Rightarrow> (string \<Rightarrow> SprintStory list)
     \<Rightarrow> (string \<Rightarrow> SprintStory list) \<Rightarrow> SprintStory list" where
  "fetchStoriesInIteration config projects iterationOids storiesById storiesByName =
     (if length iterationOids = 0 \<or> length projects = 0 then []
      else
        (let stories = concat (map storiesById projects);
             unique = fold (\<lambda>story m. Map_set (story_storyObjectId story) story m) stories []
         in if length unique > 0 then Map_values unique
            else if trim (iterationName config) = [] then []
            else Map_values
                   (fold (\<lambda>story m. Map_set (story_storyObjectId story) story m)
                      (concat (map storiesByName projects)) unique)))"

section \<open>Change extractor (fetchStoryChanges and its helpers)\<close>

text \<open>
  A feed record is the object \<open>JSON.parse\<close> built from the service's reply.  An object
  is the list of its own properties in the order \<open>Object.keys\<close> enumerates them, with
  pairwise distinct keys; reading a property that is absent gives \<open>undefined\<close>, here
  \<open>None\<close>.  Numbers are integers.
\<close>

datatype json =
    JNull
  | JBool bool
  | JNum int
  | JStr string
  | JArr "json list"
  | JObj "(string \<times> json) list"

type_synonym jsobject = "(string \<times> json) list"

definition getProp :: "jsobject \<Rightarrow> string \<Rightarrow> json option" where
  "getProp obj key = map_of obj key"

definition Object_keys :: "jsobject \<Rightarrow> string list" where
  "Object_keys obj = map fst obj"

text \<open>\<open>String(v)\<close>: an array prints its elements separated by commas, \<open>null\<close> elements
  as the empty string; an object prints as \<open>[object Object]\<close>.\<close>

fun jsString :: "json \<Rightarrow> string" where
  "jsString JNull = ''null''"
| "jsString (JBool b) = (if b then ''true'' else ''false'')"
| "jsString (JNum n) = numberToString n"
| "jsString (JStr s) = s"
| "jsString (JArr xs) =
     join '','' (map (\<lambda>x. if x = JNull then [] else jsString x) xs)"
| "jsString (JObj ps) = ''[object Object]''"

text \<open>
  \<open>Number(v)\<close>, with \<open>None\<close> for a result that is not finite.  The conversion of a
  string to a number is the platform's, the parameter \<open>stringToNumber\<close>; arrays and
  objects are converted through their string.
\<close>

definition jsNumber :: "(string \<Rightarrow> int option) \<Rightarrow> json option \<Rightarrow> int option" where
  "jsNumber stringToNumber v =
     (case v of
        None \<Rightarrow> None
      | Some JNull \<Rightarrow> Some 0
      | Some (JBool b) \<Rightarrow> Some (if b then 1 else 0)
      | Some (JNum n) \<Rightarrow> Some n
      | Some (JStr s) \<Rightarrow> stringToNumber s
      | Some x \<Rightarrow> stringToNumber (jsString x))"

definition SNAPSHOT_OVERLAP_MS :: int where
  "SNAPSHOT_OVERLAP_MS = 15 * 60 * 1000"

text \<open>
  \<open>new Date(ms).toISOString()\<close>: a time value outside \<open>\<plusminus>8.64e15\<close> makes an invalid
  date, on which \<open>toISOString\<close> throws a \<open>RangeError\<close>; inside the range the text is the
  platform's, the parameter \<open>isoFormat\<close>.
\<close>

definition Date_toISOString :: "(int \<Rightarrow> string) \<Rightarrow> int \<Rightarrow> error + string" where
  "Date_toISOString isoFormat ms =
     (if - 8640000000000000 \<le> ms \<and> ms \<le> 8640000000000000
      then Inr (isoFormat ms) else Inl RangeError)"

definition computeSnapshotSince ::
  "timeParser \<Rightarrow> (int \<Rightarrow> string) \<Rightarrow> string \<Rightarrow> string \<Rightarrow> error + string" where
  "computeSnapshotSince dateParse isoFormat cursorText startDate =
     (case dateParse cursorText of
        None \<Rightarrow> Inr cursorText
      | Some cursorMs \<Rightarrow>
          (let sinceMs0 = cursorMs - SNAPSHOT_OVERLAP_MS;
               sinceMs = (case dateParse startDate of
                            Some iterationStartMs \<Rightarrow> max sinceMs0 iterationStartMs
                          | None \<Rightarrow> sinceMs0)
           in Date_toISOString isoFormat sinceMs))"

definition extractPreviousValues :: "jsobject \<Rightarrow> jsobject" where
  "extractPreviousValues snapshot =
     (case getProp snapshot ''_PreviousValues'' of
        Some (JObj previous) \<Rightarrow> previous
      | _ \<Rightarrow> [])"

definition startsWithUnderscore :: "string \<Rightarrow> bool" where
  "startsWithUnderscore field \<longleftrightarrow> (case field of [] \<Rightarrow> False | c # cs \<Rightarrow> c = CHR ''_'')"

definition extractChangedFields :: "jsobject \<Rightarrow> string list" where
  "extractChangedFields snapshot =
     filter (\<lambda>field. \<not> startsWithUnderscore field)
       (Object_keys (extractPreviousValues snapshot))"

text \<open>\<open>simpleHash\<close>: \<open>| 0\<close> keeps the low 32 bits as a signed integer; \<open>Math.abs\<close> of the
  least one is \<open>2^31\<close>.\<close>

definition simpleHash :: "string \<Rightarrow> string" where
  "simpleHash text =
     (let hash = fold (\<lambda>c hash. hash * 31 + of_nat (of_char c)) text (0 :: 32 word)
      in toStringRadix 36 \<bar>sint hash\<bar>)"

definition dedupe :: "timeParser \<Rightarrow> StoryChange list \<Rightarrow> StoryChange list" where
  "dedupe dateParse changes =
     array_sort (byChangedAtDesc dateParse)
       (Map_values (fold (\<lambda>change m. Map_set (changeId change) change m) changes []))"

text \<open>\<open>String(snapshot._ValidFrom ?? "")\<close>.\<close>

definition snapshotValidFrom :: "jsobject \<Rightarrow> string" where
  "snapshotValidFrom snapshot =
     (case getProp snapshot ''_ValidFrom'' of
        None \<Rightarrow> []
      | Some JNull \<Rightarrow> []
      | Some v \<Rightarrow> jsString v)"

text \<open>
  The body of the loop over the feed records in \<open>fetchStoryChanges\<close>: \<open>None\<close> where the
  source continues with the next record, the change pushed otherwise.  The story id is
  printed in decimal, as the template literal prints an integer below \<open>10^21\<close>.
\<close>

definition changeOfSnapshot ::
  "(string \<Rightarrow> int option) \<Rightarrow> string set \<Rightarrow> jsobject \<Rightarrow> StoryChange option" where
  "changeOfSnapshot stringToNumber seenIds snapshot =
     (case jsNumber stringToNumber (getProp snapshot ''ObjectID'') of
        None \<Rightarrow> None
      | Some objectId \<Rightarrow>
          (let validFrom = snapshotValidFrom snapshot
           in if validFrom = [] then None
              else
                (let fields = extractChangedFields snapshot
                 in if length fields = 0 then None
                    else
                      (let user =
                             (case getProp snapshot ''_User'' of
                                Some (JStr u) \<Rightarrow> Some u
                              | _ \<Rightarrow>
                                  (case getProp snapshot ''UserName'' of
                                     Some (JStr u) \<Rightarrow> Some u
                                   | _ \<Rightarrow> None));
                           keyBase = numberToString objectId @ '':'' @ validFrom @ '':''
                                       @ join '','' fields;
                           cid = simpleHash keyBase
                       in if cid \<in> seenIds then None
                          else Some \<lparr>changeId = cid, storyObjectId = objectId,
                                     changedAt = validFrom, changedFields = fields,
                                     changedBy = user\<rparr>))))"

text \<open>
  \<open>fetchStoryChanges\<close>, given what the two awaited client calls resolved to: the live
  stories, and the feed records returned for the lower bound.  \<open>localeCompare\<close> is the
  platform's collation, \<open>nowIso\<close> is \<open>new Date().toISOString()\<close> at the end of the poll.
  A client call that fails rejects the whole poll; so does the \<open>RangeError\<close> of
  \<open>computeSnapshotSince\<close>, which is the \<open>Inl\<close> case here.
\<close>

definition fetchStoryChanges ::
  "timeParser \<Rightarrow> (int \<Rightarrow> string) \<Rightarrow> (string \<Rightarrow> int option) \<Rightarrow> (string \<Rightarrow> string \<Rightarrow> int)
     \<Rightarrow> string \<Rightarrow> 'a TrackerConfig_scheme \<Rightarrow> string \<Rightarrow> string set
     \<Rightarrow> SprintStory list \<Rightarrow> (string \<Rightarrow> jsobject list) \<Rightarrow> error + PollResult" where
  "fetchStoryChanges dateParse isoFormat stringToNumber localeCompare nowIso config cursorText
       seenIds liveStories feed =
     (if iterationOid config = []
      then Inr \<lparr>currentStories = [], newChanges = [], result_cursor = cursorText,
                errors = Some [''Select a sprint before polling.'']\<rparr>
      else
        (case computeSnapshotSince dateParse isoFormat cursorText (iterationStartDate config) of
           Inl e \<Rightarrow> Inl e
         | Inr snapshotSince \<Rightarrow>
             (let snapshots = feed snapshotSince;
                  changes = List.map_filter (changeOfSnapshot stringToNumber seenIds) snapshots;
                  sorted = array_sort (byChangedAtDesc dateParse) changes
              in Inr \<lparr>currentStories =
                         array_sort (\<lambda>a b. localeCompare (story_formattedId a)
                                               (story_formattedId b)) liveStories,
                       newChanges = dedupe dateParse sorted,
                       result_cursor = nowIso,
                       errors = None\<rparr>)))"

text \<open>
  The feed query of \<open>fetchSnapshots\<close>: the body posted to the service, \<open>None\<close> when the
  function returns the empty list without asking.  \<open>iterationOids\<close> is what
  \<open>resolveIterationOids\<close> resolved to.  A clause on \<open>_ValidFrom\<close> is an operator of the
  service's query language with its bound.
\<close>

datatype rangeOperator = Gt | Gte | Lt | Lte

record lookbackQuery =
  query_url :: string
  find_TypeHierarchy :: string
  find_Iteration_in :: "int list"
  find_ValidFrom :: "rangeOperator \<times> string"
  sort_ValidFrom :: int
  pagesize :: nat
  query_fields :: "string list"

definition fetchSnapshots_query ::
  "'a TrackerConfig_scheme \<Rightarrow> string \<Rightarrow> string list \<Rightarrow> int list \<Rightarrow> lookbackQuery option" where
  "fetchSnapshots_query config sinceIso projects iterationOids =
     (if length projects = 0 \<or> length iterationOids = 0 then None
      else Some
        \<lparr>query_url = baseUrl config @ ''/analytics/v2.0/service/rally/workspace/''
                        @ workspaceOid config @ ''/artifact/snapshot/query.js'',
         find_TypeHierarchy = ''HierarchicalRequirement'',
         find_Iteration_in = iterationOids,
         find_ValidFrom = (Gte, sinceIso),
         sort_ValidFrom = 1,
         pagesize = 500,
         query_fields = [''ObjectID'', ''FormattedID'', ''Project'', ''Name'', ''Owner'', ''Status'',
                   ''Ready'', ''ScheduleState'', ''LastUpdateDate'', ''_ValidFrom'',
                   ''_PreviousValues'', ''_User'']\<rparr>)"

text \<open>The query \<open>fetchStoryChanges\<close> has the client send for a cursor.\<close>

definition fetchStoryChanges_query ::
  "timeParser \<Rightarrow> (int \<Rightarrow> string) \<Rightarrow> 'a TrackerConfig_scheme \<Rightarrow> string \<Rightarrow> int list
     \<Rightarrow> error + lookbackQuery option" where
  "fetchStoryChanges_query dateParse isoFormat config cursorText iterationOids =
     (if iterationOid config = [] then Inr None
      else
        (case computeSnapshotSince dateParse isoFormat cursorText (iterationStartDate config) of
           Inl e \<Rightarrow> Inl e
         | Inr snapshotSince \<Rightarrow>
             Inr (fetchSnapshots_query config snapshotSince (projectOids config) iterationOids)))"

text \<open>What a range clause of the service's query language means for a record's time
  \<open>t\<close>: \<open>$gt\<close>, \<open>$gte\<close>, \<open>$lt\<close> and \<open>$lte\<close> compare it with the bound.\<close>

definition rangeHolds :: "rangeOperator \<Rightarrow> int \<Rightarrow> int \<Rightarrow> bool" where
  "rangeHolds operator bound t =
     (case operator of
        Gt \<Rightarrow> t > bound
      | Gte \<Rightarrow> t \<ge> bound
      | Lt \<Rightarrow> t < bound
      | Lte \<Rightarrow> t \<le> bound)"

section \<open>Poll orchestrator (main.ts)\<close>

definition isInProgressScheduleState :: "string \<Rightarrow> bool" where
  "isInProgressScheduleState scheduleState \<longleftrightarrow>
     replaceRunsWithHyphen (toLowerCase (trim scheduleState)) = ''in-progress''"

definition getTestingRequiredStories :: "SprintStory list \<Rightarrow> SprintStory list" where
  "getTestingRequiredStories stories =
     filter (\<lambda>story.
        if story_ready story \<noteq> Some True then False
        else isInProgressScheduleState
               (case story_scheduleState story of None \<Rightarrow> [] | Some s \<Rightarrow> s))
      stories"

text \<open>
  \<open>pollTracker\<close>.  The call \<open>fetchStoryChanges(client, config, cursor, seenIds)\<close> is the
  parameter \<open>fetch\<close>, a function of the cursor and the seen ids whose result is the
  resolved \<open>PollResult\<close> or the error the promise was rejected with.  The call
  \<open>notificationEngine.notifyTestingRequiredChange(added, removed)\<close> is the parameter
  \<open>notify\<close>: \<open>None\<close> when the promise resolves, the error when it is rejected.
  \<open>notifiedAt\<close> is \<open>new Date().toISOString()\<close> read after the notification call.  The
  outcome holds \<open>appState.trackers\<close> after the poll, the calls made to the notification
  engine (added, removed), the stories stored for display, the tracker's status and
  whether \<open>stopPolling\<close> ran.  The status text of a successful poll is kept as its
  parts.
\<close>

datatype trackerStatus =
    StatusFirstError string
  | StatusStories nat
  | StatusAuthenticationFailed
  | StatusPollingFailed error

record pollOutcome =
  out_trackers :: "string \<rightharpoonup> TrackerPersistedState"
  out_notifyCalls :: "(TestingRequiredStoryRef list \<times> TestingRequiredStoryRef list) list"
  out_currentStories :: "SprintStory list option"
  out_status :: trackerStatus
  out_stopPolling :: bool

text \<open>The state \<open>pollTracker\<close> works on, after the lookup and the scope check.\<close>

definition pollTracker_trackerState ::
  "TrackerConfig \<Rightarrow> (string \<rightharpoonup> TrackerPersistedState) \<Rightarrow> TrackerPersistedState" where
  "pollTracker_trackerState tracker trackers =
     (let key = createScopeKey tracker;
          trackerState =
            (case trackers (tracker_id tracker) of
               Some s \<Rightarrow> s
             | None \<Rightarrow> createFreshTrackerState key (iterationStartDate tracker))
      in if scopeKey trackerState \<noteq> key
         then createFreshTrackerState key (iterationStartDate tracker)
         else trackerState)"

text \<open>The cursor handed to \<open>fetchStoryChanges\<close>: \<open>trackerState.cursor ??
  tracker.iterationStartDate ?? new Date().toISOString()\<close>, where the start date is a
  string and so never nullish.\<close>

definition pollTracker_cursor :: "TrackerConfig \<Rightarrow> TrackerPersistedState \<Rightarrow> string" where
  "pollTracker_cursor tracker trackerState =
     (case cursor trackerState of Some c \<Rightarrow> c | None \<Rightarrow> iterationStartDate tracker)"

definition toRef :: "SprintStory \<Rightarrow> TestingRequiredStoryRef" where
  "toRef story =
     \<lparr>ref_storyObjectId = story_storyObjectId story, ref_formattedId = story_formattedId story\<rparr>"

text \<open>
  Whether the state \<open>pollTracker\<close> works on is the very object held in
  \<open>appState.trackers\<close>: it is when a state is stored and its scope key is the derived
  one; otherwise it is a new object.  The assignments to \<open>trackerState\<close> change the
  stored object in the first case, before \<open>appState.trackers[tracker.id] = trackerState\<close>
  is reached.
\<close>

definition pollTracker_isStored ::
  "TrackerConfig \<Rightarrow> (string \<rightharpoonup> TrackerPersistedState) \<Rightarrow> bool" where
  "pollTracker_isStored tracker trackers \<longleftrightarrow>
     (case trackers (tracker_id tracker) of
        Some s \<Rightarrow> scopeKey s = createScopeKey tracker
      | None \<Rightarrow> False)"

text \<open>The \<open>catch\<close> block of \<open>pollTracker\<close>: the status, and whether \<open>stopPolling\<close> runs.\<close>

definition pollTracker_catch :: "error \<Rightarrow> trackerStatus \<times> bool" where
  "pollTracker_catch e =
     (case e of
        RallyAuthError message \<Rightarrow> (StatusAuthenticationFailed, True)
      | _ \<Rightarrow> (StatusPollingFailed e, False))"

definition pollTracker ::
  "timeParser \<Rightarrow> (string \<Rightarrow> string set \<Rightarrow> error + PollResult)
     \<Rightarrow> (TestingRequiredStoryRef list \<Rightarrow> TestingRequiredStoryRef list \<Rightarrow> error option)
     \<Rightarrow> string \<Rightarrow> TrackerConfig
     \<Rightarrow> (string \<rightharpoonup> TrackerPersistedState) \<Rightarrow> pollOutcome" where
  "pollTracker dateParse fetch notify notifiedAt tracker trackers =
     (let key = createScopeKey tracker;
          trackerState = pollTracker_trackerState tracker trackers;
          cursor0 = pollTracker_cursor tracker trackerState
      in case fetch cursor0 (set (seenChangeIds trackerState)) of
           Inl e \<Rightarrow>
             \<lparr>out_trackers = trackers, out_notifyCalls = [], out_currentStories = None,
              out_status = fst (pollTracker_catch e),
              out_stopPolling = snd (pollTracker_catch e)\<rparr>
         | Inr result \<Rightarrow>
             (let currentTestingRequired =
                    map toRef (getTestingRequiredStories (currentStories result));
                  previousTestingRequired = testingRequiredStories trackerState;
                  currentIds = set (map ref_storyObjectId currentTestingRequired);
                  previousIds = set (map ref_storyObjectId previousTestingRequired);
                  s1 = trackerState\<lparr>
                         scopeKey := key,
                         cursor := Some (result_cursor result),
                         lastCheckedAt := Some (result_cursor result)\<rparr>;
                  s2 = (if length (newChanges result) > 0
                        then s1\<lparr>
                               history := mergeHistory dateParse (history s1) (newChanges result),
                               seenChangeIds :=
                                 seenChangeIds s1 @ map changeId (newChanges result)\<rparr>
                        else s1);
                  testingRequiredCountChanged =
                    (length currentTestingRequired \<noteq> length previousTestingRequired);
                  addedStories =
                    filter (\<lambda>story. ref_storyObjectId story \<notin> previousIds) currentTestingRequired;
                  removedStories =
                    filter (\<lambda>story. ref_storyObjectId story \<notin> currentIds) previousTestingRequired;
                  calls = (if testingRequiredCountChanged
                           then [(addedStories, removedStories)] else []);
                  rejected = (if testingRequiredCountChanged
                              then notify addedStories removedStories else None)
              in case rejected of
                   Some e \<Rightarrow>
                     \<lparr>out_trackers =
                        (if pollTracker_isStored tracker trackers
                         then trackers(tracker_id tracker \<mapsto> s2) else trackers),
                      out_notifyCalls = calls,
                      out_currentStories = Some (currentStories result),
                      out_status = fst (pollTracker_catch e),
                      out_stopPolling = snd (pollTracker_catch e)\<rparr>
                 | None \<Rightarrow>
                     (let s3 = (if testingRequiredCountChanged
                                then s2\<lparr>lastNotificationAt := Some notifiedAt\<rparr> else s2);
                          s4 = s3\<lparr>testingRequiredStories := currentTestingRequired\<rparr>
                      in \<lparr>out_trackers = trackers(tracker_id tracker \<mapsto> s4),
                          out_notifyCalls = calls,
                          out_currentStories = Some (currentStories result),
                          out_status =
                            (case errors result of
                               Some (e # es) \<Rightarrow> StatusFirstError e
                             | _ \<Rightarrow> StatusStories (length (currentStories result))),
                          out_stopPolling = False\<rparr>)))"

text \<open>A poll that reached its end: the status is one of the two set in the \<open>try\<close>
  block.\<close>

definition pollCompleted :: "pollOutcome \<Rightarrow> bool" where
  "pollCompleted outcome \<longleftrightarrow>
     (case out_status outcome of
        StatusFirstError e \<Rightarrow> True
      | StatusStories n \<Rightarrow> True
      | _ \<Rightarrow> False)"

section \<open>Concrete inputs\<close>

text \<open>A small table standing in for \<open>Date.parse\<close> in the concrete instances below.\<close>

definition sampleParse :: timeParser where
  "sampleParse = map_of
     [(''2024-01-01T00:00:00.000Z'', 1704067200000),
      (''2024-01-01T01:00:00.000Z'', 1704070800000),
      (''2024-03-01T00:00:00.000Z'', 1709251200000)]"

definition sampleChange :: "string \<Rightarrow> string \<Rightarrow> StoryChange" where
  "sampleChange cid at =
     \<lparr>changeId = cid, storyObjectId = 7, changedAt = at,
      changedFields = [''ScheduleState''], changedBy = None\<rparr>"

definition sampleState :: TrackerPersistedState where
  "sampleState =
     \<lparr>scopeKey = ''1|2|3'', cursor = Some ''2024-03-01T00:00:00.000Z'',
      seenChangeIds = [''a'', ''b'', ''c''], lastNotificationAt = None,
      history = [sampleChange ''c'' ''2024-03-01T00:00:00.000Z'',
                 sampleChange ''b'' ''not a date'',
                 sampleChange ''a'' ''2024-01-01T00:00:00.000Z''],
      lastCheckedAt = None, testingRequiredStories = []\<rparr>"

definition sampleTracker :: "string \<Rightarrow> string list \<Rightarrow> string \<Rightarrow> string \<Rightarrow> TrackerConfig" where
  "sampleTracker ws ps it start =
     \<lparr>tracker_id = ''trk_1'', tracker_name = ''Sprint 1'', projectNames = [],
      createdAt = ''2024-01-01T00:00:00.000Z'', baseUrl = ''https://rally1.rallydev.com'',
      workspaceOid = ws, projectOids = ps, iterationOid = it, iterationName = ''Sprint 1'',
      iterationStartDate = start, pollIntervalMinutes = 5, timezone = ''UTC''\<rparr>"

definition sampleHost :: host where
  "sampleHost =
     \<lparr>tauriAvailable = False, notificationDefined = True, browserPermission = Granted,
      browserRequestResult = Default, shellPermissionGranted = False,
      shellRequestResult = Default\<rparr>"

definition sampleRef :: "int \<Rightarrow> TestingRequiredStoryRef" where
  "sampleRef n = \<lparr>ref_storyObjectId = n, ref_formattedId = ''US'' @ numberToString n\<rparr>"

definition sampleStory :: "int \<Rightarrow> string \<Rightarrow> bool option \<Rightarrow> string option \<Rightarrow> SprintStory" where
  "sampleStory n fid rdy sched =
     \<lparr>story_storyObjectId = n, story_formattedId = fid, story_name = ''A story'',
      story_ownerName = None, story_statusName = None, story_ready = rdy,
      story_scheduleState = sched, story_projectName = ''Project'',
      story_url = ''https://rally1.rallydev.com/#/detail/userstory/1''\<rparr>"

definition sampleFetch :: "SprintStory list \<Rightarrow> string \<Rightarrow> string set \<Rightarrow> error + PollResult" where
  "sampleFetch stories c seen =
     Inr \<lparr>currentStories = stories, newChanges = [],
          result_cursor = ''2024-03-01T00:00:00.000Z'', errors = None\<rparr>"

definition sampleStored :: "TestingRequiredStoryRef list \<Rightarrow> string \<rightharpoonup> TrackerPersistedState" where
  "sampleStored refs =
     [''trk_1'' \<mapsto> sampleState\<lparr>testingRequiredStories := refs\<rparr>]"

definition sampleTestingStory :: "int \<Rightarrow> SprintStory" where
  "sampleTestingStory n =
     sampleStory n (''US'' @ numberToString n) (Some True) (Some ''In Progress'')"

definition sampleStoriesById :: "string \<Rightarrow> SprintStory list" where
  "sampleStoriesById projectOid =
     [sampleTestingStory 8, sampleTestingStory 9, sampleTestingStory 9, sampleTestingStory 10,
      sampleStory 11 ''US11'' (Some False) (Some ''In Progress'')]"

definition noNotifyError ::
  "TestingRequiredStoryRef list \<Rightarrow> TestingRequiredStoryRef list \<Rightarrow> error option" where
  "noNotifyError added removed = None"

definition sampleTransport :: "transportOutcome list \<Rightarrow> nat \<Rightarrow> transportOutcome" where
  "sampleTransport outcomes k =
     (if k < length outcomes then outcomes ! k else TransportThrew ''network unreachable'')"

definition sampleJson :: "string \<Rightarrow> unit option" where
  "sampleJson s = (if s = ''{}'' then Some () else None)"

definition sampleIso :: "int \<Rightarrow> string" where
  "sampleIso ms =
     (if ms = 1704067200000 then ''2024-01-01T00:00:00.000Z''
      else if ms = 1704069900000 then ''2024-01-01T00:45:00.000Z''
      else if ms = 1704070800000 then ''2024-01-01T01:00:00.000Z''
      else ''2024-03-01T00:00:00.000Z'')"

definition sampleSnapshot :: "int \<Rightarrow> string \<Rightarrow> jsobject \<Rightarrow> jsobject" where
  "sampleSnapshot objectId validFrom previous =
     [(''ObjectID'', JNum objectId), (''_ValidFrom'', JStr validFrom),
      (''_PreviousValues'', JObj previous), (''_User'', JStr ''pat'')]"

definition sampleStringToNumber :: "string \<Rightarrow> int option" where
  "sampleStringToNumber s = (if s = ''7'' then Some 7 else None)"

definition sampleFeed :: "string \<Rightarrow> jsobject list" where
  "sampleFeed since =
     (if since = ''2024-01-01T00:45:00.000Z''
      then [sampleSnapshot 7 ''2024-03-01T00:00:00.000Z''
              [(''_ValidTo'', JStr ''9999-01-01T00:00:00.000Z''), (''Name'', JStr ''old'')],
            sampleSnapshot 7 ''2024-01-01T00:00:00.000Z''
              [(''_ValidTo'', JStr ''9999-01-01T00:00:00.000Z'')]]
      else [])"

definition sampleLiveFetch :: "string \<Rightarrow> string set \<Rightarrow> error + PollResult" where
  "sampleLiveFetch c seen =
     fetchStoryChanges sampleParse sampleIso sampleStringToNumber (\<lambda>a b. 0)
       ''2024-03-01T00:00:05.000Z'' (sampleTracker ''1'' [''2''] ''3'' ''2024-01-01T00:00:00.000Z'')
       c seen
       (fetchStoriesInIteration (sampleTracker ''1'' [''2''] ''3'' ''2024-01-01T00:00:00.000Z'')
          [''2''] [3] sampleStoriesById (\<lambda>projectOid. []))
       sampleFeed"

section \<open>Retention\<close>

lemma array_slice_from_neg_suffix:
  "0 < k \<Longrightarrow> \<exists>old. xs = old @ array_slice_from (- int k) xs \<and> length (array_slice_from (- int k) xs) = min k (length xs)"
proof -
  assume "0 < k"
  then have "relIndex (- int k) (length xs) = length xs - k"
    by (auto simp: relIndex_def)
  then have eq: "array_slice_from (- int k) xs = drop (length xs - k) xs"
    by (simp add: array_slice_from_def)
  have "xs = take (length xs - k) xs @ drop (length xs - k) xs"
    by simp
  moreover have "length (drop (length xs - k) xs) = min k (length xs)"
    by auto
  ultimately show ?thesis
    unfolding eq by blast
qed

text \<open>
  Claim C5.  After \<open>trimTrackerState\<close>, every history entry has a \<open>changedAt\<close> that
  parses to a time \<open>ts\<close> with \<open>now - ts\<close> at most 45 days, and the seen-change-id list
  is the suffix of the old list holding its last 2000 entries (the whole list when it
  has at most 2000).
\<close>

theorem trimTrackerState_retention:
  "(\<forall>entry \<in> set (history (trimTrackerState dateParse now state)).
      \<exists>ts. dateParse (changedAt entry) = Some ts \<and> now - ts \<le> 45 * 24 * 60 * 60 * 1000)
   \<and> (\<exists>old. seenChangeIds state = old @ seenChangeIds (trimTrackerState dateParse now state))
   \<and> length (seenChangeIds (trimTrackerState dateParse now state))
       = min 2000 (length (seenChangeIds state))
   \<and> (length (seenChangeIds state) \<le> 2000
        \<longrightarrow> seenChangeIds (trimTrackerState dateParse now state) = seenChangeIds state)"
proof -
  let ?t = "trimTrackerState dateParse now state"
  have h: "\<forall>entry \<in> set (history ?t).
      \<exists>ts. dateParse (changedAt entry) = Some ts \<and> now - ts \<le> 45 * 24 * 60 * 60 * 1000"
    by (auto simp: trimTrackerState_def retentionMs_def split: option.splits)
  have s: "seenChangeIds ?t = array_slice_from (- int 2000) (seenChangeIds state)"
    by (simp add: trimTrackerState_def)
  obtain old where o: "seenChangeIds state = old @ seenChangeIds ?t"
    and l: "length (seenChangeIds ?t) = min 2000 (length (seenChangeIds state))"
    using array_slice_from_neg_suffix [of 2000 "seenChangeIds state"] unfolding s by auto
  have "length (seenChangeIds state) \<le> 2000 \<Longrightarrow> seenChangeIds ?t = seenChangeIds state"
  proof -
    assume "length (seenChangeIds state) \<le> 2000"
    with l have "length (seenChangeIds ?t) = length (seenChangeIds state)" by simp
    with o have "old = []" by (metis append_eq_append_conv append_Nil length_0_conv add_cancel_left_left length_append)
    with o show ?thesis by simp
  qed
  with h o l show ?thesis by blast
qed

theorem trimTrackerState_retention_witness:
  "history (trimTrackerState sampleParse 1709251200000 sampleState)
     = [sampleChange ''c'' ''2024-03-01T00:00:00.000Z'']
   \<and> (\<exists>ts. sampleParse (changedAt (sampleChange ''c'' ''2024-03-01T00:00:00.000Z'')) = Some ts
         \<and> 1709251200000 - ts \<le> 45 * 24 * 60 * 60 * 1000)
   \<and> length (seenChangeIds sampleState) \<le> 2000
   \<and> seenChangeIds (trimTrackerState sampleParse 1709251200000 sampleState)
       = [''a'', ''b'', ''c'']"
  using trimTrackerState_retention [of sampleParse 1709251200000 sampleState]
  by (simp add: trimTrackerState_def sampleState_def sampleChange_def sampleParse_def
      retentionMs_def)

section \<open>Desktop notifications\<close>

lemma title_addedNotification [simp]: "title (addedNotification s) = ref_formattedId s"
  by (simp add: addedNotification_def)

lemma title_removedNotification [simp]: "title (removedNotification s) = ref_formattedId s"
  by (simp add: removedNotification_def)

lemma array_slice_0_take: "array_slice 0 (int k) xs = take k xs"
  by (simp add: array_slice_def relIndex_def Let_def min_def)

text \<open>
  Claim C10.  With permission granted, a call with between 1 and 5 stories (added plus
  removed) dispatches exactly one notification per story, in order, each titled with
  its story's formatted id; a call with more than 5 stories dispatches exactly one
  summary notification, whose body names the first 5 formatted ids only, and nothing
  else.
\<close>

theorem notifyTestingRequiredChange_dispatch:
  assumes "fst (ensurePermission h permissionReady)"
  shows "(1 \<le> length addedStories + length removedStories
            \<and> length addedStories + length removedStories \<le> 5
          \<longrightarrow> fst (notifyTestingRequiredChange h permissionReady addedStories removedStories)
                = map (dispatchNotification h)
                    (map addedNotification addedStories @ map removedNotification removedStories)
              \<and> length (fst (notifyTestingRequiredChange h permissionReady
                               addedStories removedStories))
                  = length addedStories + length removedStories)
       \<and> (5 < length addedStories + length removedStories
          \<longrightarrow> fst (notifyTestingRequiredChange h permissionReady addedStories removedStories)
                = [dispatchNotification h
                     \<lparr>title = ''Testing required updated'',
                      body = ''Stories changed: ''
                        @ join '', '' (take 5 (map ref_formattedId (addedStories @ removedStories)))
                        @ '', ...'',
                      tag = ''testing-required-summary''\<rparr>])"
proof -
  obtain r where ep: "ensurePermission h permissionReady = (True, r)"
    using assms by (cases "ensurePermission h permissionReady") auto
  let ?ns = "map addedNotification addedStories @ map removedNotification removedStories"
  have len: "length ?ns = length addedStories + length removedStories"
    by simp
  have titles: "map title ?ns = map ref_formattedId (addedStories @ removedStories)"
    by simp
  have few: "fst (notifyTestingRequiredChange h permissionReady addedStories removedStories)
               = map (dispatchNotification h) ?ns"
    if "1 \<le> length addedStories + length removedStories"
      and "length addedStories + length removedStories \<le> 5"
    using that by (auto simp: notifyTestingRequiredChange_def ep)
  have many: "fst (notifyTestingRequiredChange h permissionReady addedStories removedStories)
               = [dispatchNotification h (summaryNotification ?ns)]"
    if "5 < length addedStories + length removedStories"
    using that by (auto simp: notifyTestingRequiredChange_def ep)
  have summ: "summaryNotification ?ns =
      \<lparr>title = ''Testing required updated'',
       body = ''Stories changed: ''
         @ join '', '' (take 5 (map ref_formattedId (addedStories @ removedStories)))
         @ '', ...'',
       tag = ''testing-required-summary''\<rparr>"
    if "5 < length addedStories + length removedStories"
  proof -
    have "array_slice 0 5 ?ns = take 5 ?ns"
      using array_slice_0_take [of 5 ?ns] by simp
    then have "map title (array_slice 0 5 ?ns)
        = take 5 (map ref_formattedId (addedStories @ removedStories))"
      using titles by (simp only: take_map [symmetric])
    then show ?thesis
      using that by (simp add: summaryNotification_def Let_def del: map_append)
  qed
  show ?thesis
    using few many summ len by (simp del: map_append)
qed

theorem notifyTestingRequiredChange_dispatch_witness:
  "fst (ensurePermission sampleHost False)
   \<and> fst (notifyTestingRequiredChange sampleHost False [sampleRef 12] [sampleRef 7])
       = [BrowserNotification ''US12'' ''US12 is ready for validation.''
            ''testing-required-added-12'',
          BrowserNotification ''US7'' ''US7 is no longer ready for validation.''
            ''testing-required-removed-7'']
   \<and> fst (notifyTestingRequiredChange sampleHost False
            [sampleRef 1, sampleRef 2, sampleRef 3, sampleRef 4]
            [sampleRef 5, sampleRef 6])
       = [BrowserNotification ''Testing required updated''
            ''Stories changed: US1, US2, US3, US4, US5, ...'' ''testing-required-summary'']"
proof -
  have p: "fst (ensurePermission sampleHost False)"
    by (simp add: ensurePermission_def sampleHost_def)
  have n: "numberToString 1 = ''1''" "numberToString 2 = ''2''" "numberToString 3 = ''3''"
    "numberToString 4 = ''4''" "numberToString 5 = ''5''" "numberToString 6 = ''6''"
    "numberToString 7 = ''7''" "numberToString 12 = ''12''"
    by code_simp+
  show ?thesis
    using p
      notifyTestingRequiredChange_dispatch [OF p, of "[sampleRef 12]" "[sampleRef 7]"]
      notifyTestingRequiredChange_dispatch [OF p,
        of "[sampleRef 1, sampleRef 2, sampleRef 3, sampleRef 4]" "[sampleRef 5, sampleRef 6]"]
    by (simp add: n sampleRef_def sampleHost_def dispatchNotification_def
        addedNotification_def removedNotification_def)
qed

section \<open>Scope keys\<close>

lemma append_sep_inject:
  "x \<notin> set a \<Longrightarrow> x \<notin> set b \<Longrightarrow> a @ x # r = b @ x # s \<Longrightarrow> a = b \<and> r = s"
proof (induction a arbitrary: b)
  case Nil
  then show ?case by (cases b) auto
next
  case (Cons c a)
  then show ?case by (cases b) auto
qed

lemma set_join_subset: "set (join sep xs) \<subseteq> set sep \<union> (\<Union>x \<in> set xs. set x)"
  by (induction sep xs rule: join.induct) auto

lemma join_comma_inject:
  assumes "\<forall>x \<in> set xs. x \<noteq> [] \<and> CHR '','' \<notin> set x"
    and "\<forall>y \<in> set ys. y \<noteq> [] \<and> CHR '','' \<notin> set y"
    and "join '','' xs = join '','' ys"
  shows "xs = ys"
  using assms
proof (induction xs arbitrary: ys)
  case Nil
  then show ?case
  proof (cases ys)
    case (Cons y ys')
    with Nil show ?thesis by (cases ys') auto
  qed simp
next
  case (Cons x xs)
  have px: "x \<noteq> []" "CHR '','' \<notin> set x"
    and pxs: "\<forall>x \<in> set xs. x \<noteq> [] \<and> CHR '','' \<notin> set x"
    using Cons.prems(1) by auto
  note pys = Cons.prems(2)
  note eq = Cons.prems(3)
  note IH = Cons.IH
  show ?case
  proof (cases ys)
    case Nil
    with eq px show ?thesis by (cases xs) auto
  next
    case ys: (Cons y ys')
    have py: "y \<noteq> []" "CHR '','' \<notin> set y"
      and pys': "\<forall>y \<in> set ys'. y \<noteq> [] \<and> CHR '','' \<notin> set y"
      using pys ys by auto
    show ?thesis
    proof (cases xs)
      case xs_nil: Nil
      show ?thesis
      proof (cases ys')
        case Nil
        with xs_nil ys eq show ?thesis by simp
      next
        case (Cons z zs)
        with xs_nil ys eq have "x = y @ CHR '','' # join '','' (z # zs)"
          by simp
        then have "CHR '','' \<in> set x" by simp
        with px show ?thesis by simp
      qed
    next
      case xs_cons: (Cons x' xs')
      show ?thesis
      proof (cases ys')
        case Nil
        with xs_cons ys eq have "y = x @ CHR '','' # join '','' (x' # xs')"
          by simp
        then have "CHR '','' \<in> set y" by simp
        with py show ?thesis by simp
      next
        case (Cons z zs)
        with xs_cons ys eq
        have e: "x @ CHR '','' # join '','' xs = y @ CHR '','' # join '','' ys'"
          by simp
        from append_sep_inject [OF px(2) py(2) e]
        have "x = y" and j: "join '','' xs = join '','' ys'"
          by auto
        moreover have "xs = ys'"
          using IH [OF pxs pys' j] .
        ultimately show ?thesis using ys by simp
      qed
    qed
  qed
qed

lemma createScopeKey_inject:
  assumes "separatorFree c1" and "separatorFree c2"
    and "createScopeKey c1 = createScopeKey c2"
  shows "workspaceOid c1 = workspaceOid c2
    \<and> sort (projectOids c1) = sort (projectOids c2)
    \<and> iterationOid c1 = iterationOid c2"
proof -
  let ?j1 = "join '','' (sort (projectOids c1))"
  let ?j2 = "join '','' (sort (projectOids c2))"
  have k: "workspaceOid c1 @ CHR ''|'' # (?j1 @ CHR ''|'' # iterationOid c1)
         = workspaceOid c2 @ CHR ''|'' # (?j2 @ CHR ''|'' # iterationOid c2)"
    using assms(3) by (simp add: createScopeKey_def)
  have w: "CHR ''|'' \<notin> set (workspaceOid c1)" "CHR ''|'' \<notin> set (workspaceOid c2)"
    using assms(1,2) by (auto simp: separatorFree_def)
  from append_sep_inject [OF w k]
  have ws: "workspaceOid c1 = workspaceOid c2"
    and r: "?j1 @ CHR ''|'' # iterationOid c1 = ?j2 @ CHR ''|'' # iterationOid c2"
    by auto
  have j: "CHR ''|'' \<notin> set ?j1" "CHR ''|'' \<notin> set ?j2"
    using set_join_subset [of "'',''" "sort (projectOids c1)"]
      set_join_subset [of "'',''" "sort (projectOids c2)"] assms(1,2)
    by (auto simp: separatorFree_def)
  from append_sep_inject [OF j r]
  have js: "?j1 = ?j2" and it: "iterationOid c1 = iterationOid c2"
    by auto
  have "sort (projectOids c1) = sort (projectOids c2)"
    using assms(1,2) js by (intro join_comma_inject) (auto simp: separatorFree_def)
  with ws it show ?thesis by simp
qed

text \<open>
  Claim C9, as amended.  For two tracker configurations whose workspace id contains no
  \<open>|\<close> and whose project ids are non-empty and contain neither \<open>|\<close> nor \<open>,\<close>, the scope
  keys are equal if and only if the workspace ids are equal, the sorted project-id
  lists are equal and the iteration ids are equal.
\<close>

theorem createScopeKey_eq_iff:
  assumes "separatorFree c1" and "separatorFree c2"
  shows "createScopeKey c1 = createScopeKey c2 \<longleftrightarrow>
           workspaceOid c1 = workspaceOid c2
           \<and> sort (projectOids c1) = sort (projectOids c2)
           \<and> iterationOid c1 = iterationOid c2"
proof
  assume "createScopeKey c1 = createScopeKey c2"
  with assms show "workspaceOid c1 = workspaceOid c2
      \<and> sort (projectOids c1) = sort (projectOids c2)
      \<and> iterationOid c1 = iterationOid c2"
    by (rule createScopeKey_inject)
next
  assume "workspaceOid c1 = workspaceOid c2
      \<and> sort (projectOids c1) = sort (projectOids c2)
      \<and> iterationOid c1 = iterationOid c2"
  then show "createScopeKey c1 = createScopeKey c2"
    by (simp add: createScopeKey_def)
qed

theorem createScopeKey_eq_iff_witness:
  "separatorFree (sampleTracker ''10'' [''22'', ''21''] ''30'' [])
   \<and> separatorFree (sampleTracker ''10'' [''21'', ''22''] ''30'' ''2024-01-01'')
   \<and> createScopeKey (sampleTracker ''10'' [''22'', ''21''] ''30'' []) = ''10|21,22|30''
   \<and> createScopeKey (sampleTracker ''10'' [''21'', ''22''] ''30'' ''2024-01-01'') = ''10|21,22|30''
   \<and> sort (projectOids (sampleTracker ''10'' [''22'', ''21''] ''30'' []))
       = sort (projectOids (sampleTracker ''10'' [''21'', ''22''] ''30'' ''2024-01-01''))"
proof -
  have a: "separatorFree (sampleTracker ''10'' [''22'', ''21''] ''30'' [])"
    by (simp add: separatorFree_def sampleTracker_def)
  have b: "separatorFree (sampleTracker ''10'' [''21'', ''22''] ''30'' ''2024-01-01'')"
    by (simp add: separatorFree_def sampleTracker_def)
  have k: "createScopeKey (sampleTracker ''10'' [''22'', ''21''] ''30'' []) = ''10|21,22|30''"
    "createScopeKey (sampleTracker ''10'' [''21'', ''22''] ''30'' ''2024-01-01'') = ''10|21,22|30''"
    by code_simp+
  show ?thesis
    using a b k createScopeKey_eq_iff [OF a b] by simp
qed

text \<open>
  The claim as stated fails without the restriction: the key is a plain concatenation,
  so a separator inside an id moves the boundary between the parts.
\<close>

theorem createScopeKey_collision:
  "createScopeKey (sampleTracker ''a|b'' [''c''] ''d'' []) =
     createScopeKey (sampleTracker ''a'' [''b''] ''c|d'' [])
   \<and> workspaceOid (sampleTracker ''a|b'' [''c''] ''d'' [])
       \<noteq> workspaceOid (sampleTracker ''a'' [''b''] ''c|d'' [])"
  by (simp add: createScopeKey_def sampleTracker_def)

section \<open>Merging history\<close>

lemma Map_set_fresh: "k \<notin> fst ` set m \<Longrightarrow> Map_set k v m = m @ [(k, v)]"
  by (induction m) auto

lemma fold_Map_set_fresh:
  "distinct (map changeId h) \<Longrightarrow> changeId ` set h \<inter> fst ` set m = {}
     \<Longrightarrow> fold (\<lambda>change m. Map_set (changeId change) change m) h m
           = m @ map (\<lambda>change. (changeId change, change)) h"
proof (induction h arbitrary: m)
  case Nil
  then show ?case by simp
next
  case (Cons c h)
  have fresh: "changeId c \<notin> fst ` set m"
    using Cons.prems(2) by auto
  have "changeId ` set h \<inter> fst ` set (m @ [(changeId c, c)]) = {}"
    using Cons.prems by auto
  with Cons.IH [of "m @ [(changeId c, c)]"] Cons.prems(1) fresh
  show ?case by (simp add: Map_set_fresh)
qed

lemma insertBy_in_order:
  "xs = [] \<or> compare x (hd xs) \<le> 0 \<Longrightarrow> insertBy compare x xs = x # xs"
  by (cases xs) auto

lemma array_sort_sorted:
  "sorted_wrt (\<lambda>a b. compare a b \<le> 0) xs \<Longrightarrow> array_sort compare xs = xs"
proof (induction xs)
  case Nil
  then show ?case by (simp add: array_sort_def)
next
  case (Cons x xs)
  then have "array_sort compare xs = xs" by simp
  then have "array_sort compare (x # xs) = insertBy compare x xs"
    by (simp add: array_sort_def)
  moreover have "xs = [] \<or> compare x (hd xs) \<le> 0"
    using Cons.prems by (cases xs) auto
  ultimately show ?case by (simp add: insertBy_in_order)
qed

lemma Map_values_of_changes:
  "Map_values (map (\<lambda>change. (changeId change, change)) h) = h"
  by (simp add: Map_values_def comp_def)

lemma map_of_Map_set: "map_of (Map_set k v m) = (map_of m)(k \<mapsto> v)"
  by (induction m) (auto simp: fun_eq_iff)

lemma keys_Map_set:
  "map fst (Map_set k v m) = (if k \<in> set (map fst m) then map fst m else map fst m @ [k])"
proof (induction m)
  case Nil
  then show ?case by simp
next
  case (Cons p m)
  obtain k' v' where p: "p = (k', v')" by (cases p)
  show ?case
    using Cons by (cases "k' = k"; cases "k \<in> set (map fst m)") (simp_all add: p)
qed

lemma keyset_Map_set: "set (map fst (Map_set k v m)) = insert k (set (map fst m))"
  by (auto simp: keys_Map_set)

lemma distinct_Map_set: "distinct (map fst m) \<Longrightarrow> distinct (map fst (Map_set k v m))"
  by (simp add: keys_Map_set)

lemma alist_eqI:
  "map fst a = map fst b \<Longrightarrow> distinct (map fst a) \<Longrightarrow> map_of a = map_of b \<Longrightarrow> a = b"
proof (induction a arbitrary: b)
  case Nil
  then show ?case by simp
next
  case (Cons p a)
  then obtain q b' where b: "b = q # b'" by (cases b) auto
  obtain k v where p: "p = (k, v)" by (cases p)
  obtain k' v' where q: "q = (k', v')" by (cases q)
  from Cons.prems(1) have k: "k' = k" and ks: "map fst a = map fst b'"
    by (simp_all add: b p q)
  from Cons.prems(3) [unfolded b] have e: "map_of (p # a) x = map_of (q # b') x" for x
    by (rule fun_cong)
  from e [of k] have v: "v' = v" by (simp add: p q k)
  have nk: "k \<notin> set (map fst a)"
    using Cons.prems(2) by (simp add: p)
  from nk have nk': "k \<notin> set (map fst b')"
    unfolding ks .
  have "map_of a = map_of b'"
  proof
    fix x
    show "map_of a x = map_of b' x"
    proof (cases "x = k")
      case True
      have "map_of a k = None" "map_of b' k = None"
        using nk nk' by (simp_all add: map_of_eq_None_iff)
      with True show ?thesis by simp
    next
      case False
      with e [of x] show ?thesis by (simp add: p q k)
    qed
  qed
  moreover have "distinct (map fst a)" using Cons.prems(2) by simp
  ultimately have "a = b'" using Cons.IH [OF ks] by simp
  then show ?case by (simp add: b p q k v)
qed

lemma fold_Map_set_props:
  "distinct (map fst m) \<Longrightarrow>
   distinct (map fst (fold (\<lambda>c m. Map_set (f c) c m) h m))
   \<and> set (map fst (fold (\<lambda>c m. Map_set (f c) c m) h m)) = set (map fst m) \<union> f ` set h
   \<and> (f ` set h \<subseteq> set (map fst m)
        \<longrightarrow> map fst (fold (\<lambda>c m. Map_set (f c) c m) h m) = map fst m)
   \<and> map_of (fold (\<lambda>c m. Map_set (f c) c m) h m)
       = map_of m ++ map_of (rev (map (\<lambda>c. (f c, c)) h))"
proof (induction h arbitrary: m)
  case Nil
  then show ?case by simp
next
  case (Cons c h)
  let ?m = "Map_set (f c) c m"
  let ?r = "fold (\<lambda>c m. Map_set (f c) c m) h ?m"
  have d: "distinct (map fst ?m)" using Cons.prems by (rule distinct_Map_set)
  from Cons.IH [OF d] have
    i1: "distinct (map fst ?r)"
    and i2: "set (map fst ?r) = set (map fst ?m) \<union> f ` set h"
    and i3: "f ` set h \<subseteq> set (map fst ?m) \<longrightarrow> map fst ?r = map fst ?m"
    and i4: "map_of ?r = map_of ?m ++ map_of (rev (map (\<lambda>c. (f c, c)) h))"
    by blast+
  have r: "fold (\<lambda>c m. Map_set (f c) c m) (c # h) m = ?r"
    by simp
  have g2: "set (map fst ?r) = set (map fst m) \<union> f ` set (c # h)"
    unfolding i2 keyset_Map_set by auto
  have g3: "map fst ?r = map fst m" if s: "f ` set (c # h) \<subseteq> set (map fst m)"
  proof -
    from s have "f c \<in> set (map fst m)" by simp
    then have e: "map fst ?m = map fst m" by (simp add: keys_Map_set)
    from s have "f ` set h \<subseteq> set (map fst ?m)" unfolding e by simp
    with i3 e show ?thesis by simp
  qed
  have g4: "map_of ?r = map_of m ++ map_of (rev (map (\<lambda>c. (f c, c)) (c # h)))"
    unfolding i4 by (simp add: map_of_Map_set fun_eq_iff map_add_def split: option.splits)
  show ?case
    unfolding r using i1 g2 g3 g4 by blast
qed

lemma fold_Map_set_twice:
  "fold (\<lambda>c m. Map_set (f c) c m) h (fold (\<lambda>c m. Map_set (f c) c m) h [])
     = fold (\<lambda>c m. Map_set (f c) c m) h []"
proof -
  let ?m = "fold (\<lambda>c m. Map_set (f c) c m) h []"
  let ?r = "fold (\<lambda>c m. Map_set (f c) c m) h ?m"
  from fold_Map_set_props [of "[]" f h] have
    p1: "distinct (map fst ?m)"
    and p2: "set (map fst ?m) = f ` set h"
    and p3: "map_of ?m = map_of (rev (map (\<lambda>c. (f c, c)) h))"
    by simp_all
  have sub: "f ` set h \<subseteq> set (map fst ?m)"
    unfolding p2 by simp
  from fold_Map_set_props [OF p1, of f h] sub have
    q1: "distinct (map fst ?r)"
    and q2: "map fst ?r = map fst ?m"
    and q3: "map_of ?r = map_of ?m ++ map_of (rev (map (\<lambda>c. (f c, c)) h))"
    by blast+
  have "map_of ?r = map_of ?m"
    unfolding q3 p3 by (simp add: fun_eq_iff map_add_def split: option.splits)
  with q1 q2 show ?thesis by (intro alist_eqI) simp_all
qed

text \<open>
  Claim C4, as amended.  For every history list, in whatever order,
  \<open>mergeHistory(history, history)\<close> equals \<open>mergeHistory(history, [])\<close>.  For a list whose
  change ids are pairwise distinct and which is already ordered newest first (no entry
  is followed by one the comparator puts before it), both equal \<open>history\<close>.
\<close>

theorem mergeHistory_identity:
  assumes "distinct (map changeId h)"
    and "sorted_wrt (\<lambda>a b. byChangedAtDesc dateParse a b \<le> 0) h"
  shows "mergeHistory dateParse h [] = h \<and> mergeHistory dateParse h h = h
       \<and> mergeHistory dateParse any any = mergeHistory dateParse any []"
proof -
  let ?step = "\<lambda>change m. Map_set (changeId change) change m"
  let ?m = "map (\<lambda>change. (changeId change, change)) h"
  have m0: "fold ?step h [] = ?m"
    using fold_Map_set_fresh [of h "[]"] assms(1) by simp
  have s: "array_sort (byChangedAtDesc dateParse) h = h"
    using assms(2) by (rule array_sort_sorted)
  have e: "mergeHistory dateParse h [] = h"
    by (simp add: mergeHistory_def Let_def m0 Map_values_of_changes s)
  have i1: "mergeHistory dateParse h h = mergeHistory dateParse h []"
    by (simp add: mergeHistory_def Let_def fold_Map_set_twice)
  have i2: "mergeHistory dateParse any any = mergeHistory dateParse any []"
    by (simp add: mergeHistory_def Let_def fold_Map_set_twice)
  from e i1 i2 show ?thesis
    by simp
qed

theorem mergeHistory_identity_witness:
  "distinct (map changeId [sampleChange ''c'' ''2024-03-01T00:00:00.000Z'',
                           sampleChange ''a'' ''2024-01-01T00:00:00.000Z''])
   \<and> sorted_wrt (\<lambda>a b. byChangedAtDesc sampleParse a b \<le> 0)
        [sampleChange ''c'' ''2024-03-01T00:00:00.000Z'',
         sampleChange ''a'' ''2024-01-01T00:00:00.000Z'']
   \<and> mergeHistory sampleParse
        [sampleChange ''c'' ''2024-03-01T00:00:00.000Z'',
         sampleChange ''a'' ''2024-01-01T00:00:00.000Z''] []
       = [sampleChange ''c'' ''2024-03-01T00:00:00.000Z'',
          sampleChange ''a'' ''2024-01-01T00:00:00.000Z'']
   \<and> mergeHistory sampleParse
        [sampleChange ''c'' ''2024-03-01T00:00:00.000Z'',
         sampleChange ''a'' ''2024-01-01T00:00:00.000Z'']
        [sampleChange ''c'' ''2024-03-01T00:00:00.000Z'',
         sampleChange ''a'' ''2024-01-01T00:00:00.000Z'']
       = [sampleChange ''c'' ''2024-03-01T00:00:00.000Z'',
          sampleChange ''a'' ''2024-01-01T00:00:00.000Z'']"
proof -
  let ?h = "[sampleChange ''c'' ''2024-03-01T00:00:00.000Z'',
             sampleChange ''a'' ''2024-01-01T00:00:00.000Z'']"
  have d: "distinct (map changeId ?h)"
    by (simp add: sampleChange_def)
  have s: "sorted_wrt (\<lambda>a b. byChangedAtDesc sampleParse a b \<le> 0) ?h"
    by (simp add: sampleChange_def byChangedAtDesc_def sampleParse_def)
  show ?thesis
    using d s mergeHistory_identity [OF d s, of ?h] by simp
qed

text \<open>
  The claim as stated fails for a list in another order: merging re-sorts it.
\<close>

theorem mergeHistory_reorders:
  "mergeHistory sampleParse
     [sampleChange ''a'' ''2024-01-01T00:00:00.000Z'',
      sampleChange ''c'' ''2024-03-01T00:00:00.000Z''] []
     = [sampleChange ''c'' ''2024-03-01T00:00:00.000Z'',
        sampleChange ''a'' ''2024-01-01T00:00:00.000Z'']
   \<and> mergeHistory sampleParse
     [sampleChange ''a'' ''2024-01-01T00:00:00.000Z'',
      sampleChange ''c'' ''2024-03-01T00:00:00.000Z''] []
     \<noteq> [sampleChange ''a'' ''2024-01-01T00:00:00.000Z'',
        sampleChange ''c'' ''2024-03-01T00:00:00.000Z'']"
  by (simp add: mergeHistory_def Map_values_def array_sort_def byChangedAtDesc_def
      sampleChange_def sampleParse_def)

section \<open>Scope fencing\<close>

lemma pollTracker_trackerState_stale:
  assumes "trackers (tracker_id tracker) = Some old"
    and "scopeKey old \<noteq> createScopeKey tracker"
  shows "pollTracker_trackerState tracker trackers
           = createFreshTrackerState (createScopeKey tracker) (iterationStartDate tracker)"
  using assms by (simp add: pollTracker_trackerState_def Let_def)

lemma pollTracker_trackerState_absent:
  "pollTracker_trackerState tracker (trackers(tracker_id tracker := None))
     = createFreshTrackerState (createScopeKey tracker) (iterationStartDate tracker)"
  by (simp add: pollTracker_trackerState_def Let_def createFreshTrackerState_def
      DEFAULT_TRACKER_STATE_def)

lemma pollTracker_not_stored:
  assumes "pollTracker_trackerState tracker t1 = pollTracker_trackerState tracker t2"
    and "\<not> pollTracker_isStored tracker t1" and "\<not> pollTracker_isStored tracker t2"
  shows "out_notifyCalls (pollTracker dateParse fetch notify notifiedAt tracker t1)
           = out_notifyCalls (pollTracker dateParse fetch notify notifiedAt tracker t2)
       \<and> out_status (pollTracker dateParse fetch notify notifiedAt tracker t1)
           = out_status (pollTracker dateParse fetch notify notifiedAt tracker t2)
       \<and> out_currentStories (pollTracker dateParse fetch notify notifiedAt tracker t1)
           = out_currentStories (pollTracker dateParse fetch notify notifiedAt tracker t2)
       \<and> out_stopPolling (pollTracker dateParse fetch notify notifiedAt tracker t1)
           = out_stopPolling (pollTracker dateParse fetch notify notifiedAt tracker t2)
       \<and> out_trackers (pollTracker dateParse fetch notify notifiedAt tracker t1) (tracker_id tracker)
           = (if pollCompleted (pollTracker dateParse fetch notify notifiedAt tracker t2)
              then out_trackers (pollTracker dateParse fetch notify notifiedAt tracker t2)
                     (tracker_id tracker)
              else t1 (tracker_id tracker))"
  using assms
  by (simp add: pollTracker_def Let_def pollCompleted_def pollTracker_catch_def
      split: sum.splits option.splits error.splits list.splits)

lemma pollCompleted_iff:
  "pollCompleted (pollTracker dateParse fetch notify notifiedAt tracker trackers) \<longleftrightarrow>
     (\<exists>result.
        fetch (pollTracker_cursor tracker (pollTracker_trackerState tracker trackers))
          (set (seenChangeIds (pollTracker_trackerState tracker trackers))) = Inr result
        \<and> (\<forall>added removed.
              out_notifyCalls (pollTracker dateParse fetch notify notifiedAt tracker trackers)
                = [(added, removed)]
              \<longrightarrow> notify added removed = None))"
  by (auto simp: pollTracker_def Let_def pollCompleted_def pollTracker_catch_def
      split: sum.splits option.splits error.splits list.splits if_splits)

text \<open>
  Claim C3, as amended.  When the stored state of a tracker has a scope key other than
  the one derived from its configuration, \<open>pollTracker\<close> works on a fresh state: its
  scope key is the derived one, its cursor is the sprint's start date, or \<open>null\<close> when
  the start date is the empty string, and every other field is empty; the cursor handed
  to the fetch is the start date in both cases.  Nothing of the old state is used: the
  notification calls, the status, the stories shown and the stopping of the polling
  are those of a poll with no stored state.  When the poll completes (the fetch and the
  notification call, if one is made, both succeed) the state stored for the tracker is
  the one a poll with no stored state stores; when the fetch or the notification call
  fails, the old state stays stored as it was.
\<close>

theorem pollTracker_scope_fence:
  assumes "trackers (tracker_id tracker) = Some old"
    and "scopeKey old \<noteq> createScopeKey tracker"
  shows "pollTracker_trackerState tracker trackers
           = \<lparr>scopeKey = createScopeKey tracker,
              cursor = (if iterationStartDate tracker = [] then None
                        else Some (iterationStartDate tracker)),
              seenChangeIds = [], lastNotificationAt = None, history = [],
              lastCheckedAt = None, testingRequiredStories = []\<rparr>
       \<and> pollTracker_cursor tracker (pollTracker_trackerState tracker trackers)
           = iterationStartDate tracker
       \<and> out_notifyCalls (pollTracker dateParse fetch notify notifiedAt tracker trackers)
           = out_notifyCalls (pollTracker dateParse fetch notify notifiedAt tracker
               (trackers(tracker_id tracker := None)))
       \<and> out_status (pollTracker dateParse fetch notify notifiedAt tracker trackers)
           = out_status (pollTracker dateParse fetch notify notifiedAt tracker
               (trackers(tracker_id tracker := None)))
       \<and> out_currentStories (pollTracker dateParse fetch notify notifiedAt tracker trackers)
           = out_currentStories (pollTracker dateParse fetch notify notifiedAt tracker
               (trackers(tracker_id tracker := None)))
       \<and> out_stopPolling (pollTracker dateParse fetch notify notifiedAt tracker trackers)
           = out_stopPolling (pollTracker dateParse fetch notify notifiedAt tracker
               (trackers(tracker_id tracker := None)))
       \<and> out_trackers (pollTracker dateParse fetch notify notifiedAt tracker trackers)
             (tracker_id tracker)
           = (if pollCompleted (pollTracker dateParse fetch notify notifiedAt tracker
                   (trackers(tracker_id tracker := None)))
              then out_trackers (pollTracker dateParse fetch notify notifiedAt tracker
                     (trackers(tracker_id tracker := None))) (tracker_id tracker)
              else Some old)
       \<and> (pollCompleted (pollTracker dateParse fetch notify notifiedAt tracker
               (trackers(tracker_id tracker := None)))
            \<longleftrightarrow> (\<exists>result. fetch (iterationStartDate tracker) {} = Inr result
                  \<and> (\<forall>added removed.
                        out_notifyCalls
                          (pollTracker dateParse fetch notify notifiedAt tracker trackers)
                          = [(added, removed)]
                        \<longrightarrow> notify added removed = None)))"
proof -
  let ?fresh = "createFreshTrackerState (createScopeKey tracker) (iterationStartDate tracker)"
  let ?absent = "trackers(tracker_id tracker := None)"
  have st: "pollTracker_trackerState tracker trackers = ?fresh"
    using assms by (rule pollTracker_trackerState_stale)
  have ab: "pollTracker_trackerState tracker ?absent = ?fresh"
    by (rule pollTracker_trackerState_absent)
  have rec: "?fresh = \<lparr>scopeKey = createScopeKey tracker,
              cursor = (if iterationStartDate tracker = [] then None
                        else Some (iterationStartDate tracker)),
              seenChangeIds = [], lastNotificationAt = None, history = [],
              lastCheckedAt = None, testingRequiredStories = []\<rparr>"
    by (simp add: createFreshTrackerState_def DEFAULT_TRACKER_STATE_def)
  have cur: "pollTracker_cursor tracker ?fresh = iterationStartDate tracker"
    by (simp add: pollTracker_cursor_def createFreshTrackerState_def)
  have eq: "pollTracker_trackerState tracker trackers
      = pollTracker_trackerState tracker ?absent"
    by (simp only: st ab)
  have n1: "\<not> pollTracker_isStored tracker trackers"
    using assms by (simp add: pollTracker_isStored_def)
  have n2: "\<not> pollTracker_isStored tracker ?absent"
    by (simp add: pollTracker_isStored_def)
  note c = pollTracker_not_stored [OF eq n1 n2, of dateParse fetch notify notifiedAt]
  have seen: "set (seenChangeIds ?fresh) = {}"
    by (simp add: createFreshTrackerState_def DEFAULT_TRACKER_STATE_def)
  have completed: "pollCompleted (pollTracker dateParse fetch notify notifiedAt tracker ?absent)
            \<longleftrightarrow> (\<exists>result. fetch (iterationStartDate tracker) {} = Inr result
                  \<and> (\<forall>added removed.
                        out_notifyCalls
                          (pollTracker dateParse fetch notify notifiedAt tracker trackers)
                          = [(added, removed)]
                        \<longrightarrow> notify added removed = None))"
    using pollCompleted_iff [of dateParse fetch notify notifiedAt tracker ?absent] c
    by (simp only: ab cur seen)
  from c assms(1) completed show ?thesis
    by (simp only: st rec [symmetric] cur simp_thms)
qed

theorem pollTracker_scope_fence_witness:
  "sampleStored [] (tracker_id (sampleTracker ''10'' [''21''] ''30'' ''2024-01-01T00:00:00.000Z''))
     = Some sampleState
   \<and> scopeKey sampleState
       \<noteq> createScopeKey (sampleTracker ''10'' [''21''] ''30'' ''2024-01-01T00:00:00.000Z'')
   \<and> pollTracker_trackerState
        (sampleTracker ''10'' [''21''] ''30'' ''2024-01-01T00:00:00.000Z'') (sampleStored [])
       = \<lparr>scopeKey = ''10|21|30'', cursor = Some ''2024-01-01T00:00:00.000Z'',
          seenChangeIds = [], lastNotificationAt = None, history = [],
          lastCheckedAt = None, testingRequiredStories = []\<rparr>
   \<and> pollCompleted (pollTracker sampleParse (sampleFetch []) (\<lambda>added removed. None) []
        (sampleTracker ''10'' [''21''] ''30'' ''2024-01-01T00:00:00.000Z'')
        ((sampleStored [])(''trk_1'' := None)))
   \<and> out_trackers (pollTracker sampleParse (sampleFetch []) (\<lambda>added removed. None) []
        (sampleTracker ''10'' [''21''] ''30'' ''2024-01-01T00:00:00.000Z'') (sampleStored []))
        ''trk_1''
      = Some \<lparr>scopeKey = ''10|21|30'', cursor = Some ''2024-03-01T00:00:00.000Z'',
          seenChangeIds = [], lastNotificationAt = None, history = [],
          lastCheckedAt = Some ''2024-03-01T00:00:00.000Z'', testingRequiredStories = []\<rparr>"
proof -
  let ?t = "sampleTracker ''10'' [''21''] ''30'' ''2024-01-01T00:00:00.000Z''"
  let ?n = "\<lambda>(added :: TestingRequiredStoryRef list) (removed :: TestingRequiredStoryRef list).
              (None :: error option)"
  have k: "createScopeKey ?t = ''10|21|30''"
    by code_simp
  have i: "tracker_id ?t = ''trk_1''"
    by (simp add: sampleTracker_def)
  have a: "sampleStored [] (tracker_id ?t) = Some sampleState"
    by (simp add: sampleStored_def sampleTracker_def sampleState_def)
  have b: "scopeKey sampleState \<noteq> createScopeKey ?t"
    by (simp add: k sampleState_def)
  have d: "iterationStartDate ?t = ''2024-01-01T00:00:00.000Z''"
    by (simp add: sampleTracker_def)
  have q: "pollCompleted (pollTracker sampleParse (sampleFetch []) ?n [] ?t
             ((sampleStored [])(''trk_1'' := None)))"
    by code_simp
  have s: "out_trackers (pollTracker sampleParse (sampleFetch []) ?n [] ?t
             ((sampleStored [])(''trk_1'' := None))) ''trk_1''
      = Some \<lparr>scopeKey = ''10|21|30'', cursor = Some ''2024-03-01T00:00:00.000Z'',
          seenChangeIds = [], lastNotificationAt = None, history = [],
          lastCheckedAt = Some ''2024-03-01T00:00:00.000Z'', testingRequiredStories = []\<rparr>"
    by code_simp
  note w = pollTracker_scope_fence [where trackers = "sampleStored []" and tracker = ?t
        and old = sampleState and dateParse = sampleParse and fetch = "sampleFetch []"
        and notify = ?n and notifiedAt = "[]", OF a b]
  from w have w1: "pollTracker_trackerState ?t (sampleStored [])
       = \<lparr>scopeKey = ''10|21|30'', cursor = Some ''2024-01-01T00:00:00.000Z'',
          seenChangeIds = [], lastNotificationAt = None, history = [],
          lastCheckedAt = None, testingRequiredStories = []\<rparr>"
    by (simp add: k d)
  from w q s have w2: "out_trackers (pollTracker sampleParse (sampleFetch []) ?n [] ?t
        (sampleStored [])) ''trk_1''
      = Some \<lparr>scopeKey = ''10|21|30'', cursor = Some ''2024-03-01T00:00:00.000Z'',
          seenChangeIds = [], lastNotificationAt = None, history = [],
          lastCheckedAt = Some ''2024-03-01T00:00:00.000Z'', testingRequiredStories = []\<rparr>"
    by (simp only: i if_True)
  from a b w1 q w2 show ?thesis
    by (simp only: simp_thms)
qed

text \<open>
  The claim as stated fails in two ways.  For a tracker without a start date the fresh
  state's cursor is \<open>null\<close>, not the (empty) start date; and when the fetch fails the
  stored state is not discarded: the state of the old scope is still the one stored
  after the poll.
\<close>

theorem pollTracker_scope_fence_not_discarded:
  "sampleStored [] (tracker_id (sampleTracker ''10'' [''21''] ''30'' [])) = Some sampleState
   \<and> scopeKey sampleState \<noteq> createScopeKey (sampleTracker ''10'' [''21''] ''30'' [])
   \<and> cursor (pollTracker_trackerState (sampleTracker ''10'' [''21''] ''30'' []) (sampleStored []))
       = None
   \<and> cursor (pollTracker_trackerState (sampleTracker ''10'' [''21''] ''30'' []) (sampleStored []))
       \<noteq> Some (iterationStartDate (sampleTracker ''10'' [''21''] ''30'' []))
   \<and> scopeKey sampleState
       \<noteq> createScopeKey (sampleTracker ''10'' [''21''] ''30'' ''2024-01-01T00:00:00.000Z'')
   \<and> out_trackers
        (pollTracker sampleParse (\<lambda>c seen. Inl (Error ''Rally request failed (503): busy''))
           (\<lambda>added removed. None) []
           (sampleTracker ''10'' [''21''] ''30'' ''2024-01-01T00:00:00.000Z'') (sampleStored []))
        ''trk_1''
       = Some sampleState"
proof -
  let ?t = "sampleTracker ''10'' [''21''] ''30'' []"
  let ?u = "sampleTracker ''10'' [''21''] ''30'' ''2024-01-01T00:00:00.000Z''"
  have k: "createScopeKey ?t = ''10|21|30''" "createScopeKey ?u = ''10|21|30''"
    by code_simp+
  have i: "tracker_id ?t = ''trk_1''" and d: "iterationStartDate ?t = []"
    by (simp_all add: sampleTracker_def)
  have s: "sampleStored [] ''trk_1'' = Some sampleState"
    by (simp add: sampleStored_def sampleState_def)
  have sk: "scopeKey sampleState = ''1|2|3''"
    by (simp add: sampleState_def)
  have c: "cursor (pollTracker_trackerState ?t (sampleStored [])) = None"
    by (simp add: k i d s sk pollTracker_trackerState_def createFreshTrackerState_def)
  have f: "out_trackers
        (pollTracker sampleParse (\<lambda>c seen. Inl (Error ''Rally request failed (503): busy''))
           (\<lambda>added removed. None) [] ?u (sampleStored [])) ''trk_1''
       = Some sampleState"
    by (simp add: pollTracker_def Let_def s)
  from c f show ?thesis
    by (simp add: k i d s sk)
qed

section \<open>Notification trigger\<close>

lemma added_removed_not_both_empty:
  assumes "distinct (map f cur)" and "distinct (map f prev)"
    and "length cur \<noteq> length prev"
  shows "filter (\<lambda>s. f s \<notin> f ` set prev) cur \<noteq> []
       \<or> filter (\<lambda>s. f s \<notin> f ` set cur) prev \<noteq> []"
proof (rule ccontr)
  assume "\<not> ?thesis"
  then have "f ` set cur \<subseteq> f ` set prev" and "f ` set prev \<subseteq> f ` set cur"
    by (auto simp: filter_empty_conv)
  then have "set (map f cur) = set (map f prev)"
    by auto
  then have "card (set (map f cur)) = card (set (map f prev))"
    by simp
  then have "length (map f cur) = length (map f prev)"
    using assms(1,2) by (simp only: distinct_card)
  with assms(3) show False by simp
qed

lemma distinct_testing_required:
  "distinct (map story_storyObjectId stories)
     \<Longrightarrow> distinct (map ref_storyObjectId (map toRef (getTestingRequiredStories stories)))"
  by (simp add: getTestingRequiredStories_def toRef_def comp_def distinct_map_filter)

lemma mset_insertBy: "mset (insertBy compare x xs) = add_mset x (mset xs)"
  by (induction xs) auto

lemma mset_array_sort: "mset (array_sort compare xs) = mset xs"
  by (induction xs) (simp_all add: array_sort_def mset_insertBy)

lemma distinct_map_array_sort:
  "distinct (map f (array_sort compare xs)) \<longleftrightarrow> distinct (map f xs)"
proof -
  have "mset (map f (array_sort compare xs)) = mset (map f xs)"
    by (simp add: mset_array_sort)
  then show ?thesis
    by (rule mset_eq_imp_distinct_iff)
qed

lemma Map_set_keyed:
  "\<forall>(k, v) \<in> set m. k = f v \<Longrightarrow> \<forall>(k, v) \<in> set (Map_set (f c) c m). k = f v"
  by (induction m) (auto split: if_splits)

lemma fold_Map_set_keyed:
  "\<forall>(k, v) \<in> set m. k = f v
     \<Longrightarrow> \<forall>(k, v) \<in> set (fold (\<lambda>c m. Map_set (f c) c m) xs m). k = f v"
proof (induction xs arbitrary: m)
  case Nil
  then show ?case by simp
next
  case (Cons x xs)
  from Map_set_keyed [OF Cons.prems] have "\<forall>(k, v) \<in> set (Map_set (f x) x m). k = f v" .
  from Cons.IH [OF this] show ?case by simp
qed

lemma keyed_Map_values: "\<forall>(k, v) \<in> set m. k = f v \<Longrightarrow> map f (Map_values m) = map fst m"
  by (induction m) (auto simp: Map_values_def)

lemma distinct_fold_Map_set_values:
  assumes "distinct (map fst m)" and "\<forall>(k, v) \<in> set m. k = f v"
  shows "distinct (map f (Map_values (fold (\<lambda>c m. Map_set (f c) c m) xs m)))"
proof -
  have "distinct (map fst (fold (\<lambda>c m. Map_set (f c) c m) xs m))"
    using fold_Map_set_props [OF assms(1), of f xs] by blast
  moreover have "map f (Map_values (fold (\<lambda>c m. Map_set (f c) c m) xs m))
      = map fst (fold (\<lambda>c m. Map_set (f c) c m) xs m)"
    using fold_Map_set_keyed [OF assms(2)] by (rule keyed_Map_values)
  ultimately show ?thesis by simp
qed

lemma distinct_fetchStoriesInIteration:
  "distinct (map story_storyObjectId
     (fetchStoriesInIteration config projects iterationOids storiesById storiesByName))"
proof -
  let ?step = "\<lambda>story m. Map_set (story_storyObjectId story) story m"
  let ?unique = "fold ?step (concat (map storiesById projects)) []"
  have e: "distinct (map fst ([] :: (int \<times> SprintStory) list))"
    "\<forall>(k, v) \<in> set ([] :: (int \<times> SprintStory) list). k = story_storyObjectId v"
    by simp_all
  have u: "distinct (map story_storyObjectId (Map_values (fold ?step xs [])))" for xs
    using distinct_fold_Map_set_values
      [where f = story_storyObjectId and m = "[]" and xs = xs] by simp
  have d: "distinct (map fst ?unique)"
    using fold_Map_set_props [OF e(1), of story_storyObjectId] by blast
  have k: "\<forall>(k, v) \<in> set ?unique. k = story_storyObjectId v"
    using e(2) by (rule fold_Map_set_keyed)
  have n: "distinct (map story_storyObjectId
      (Map_values (fold ?step (concat (map storiesByName projects)) ?unique)))"
    using distinct_fold_Map_set_values
      [where f = story_storyObjectId and m = ?unique, OF d k] .
  show ?thesis
    by (simp add: fetchStoriesInIteration_def Let_def u n)
qed

lemma distinct_fetchStoryChanges:
  assumes "fetchStoryChanges dateParse isoFormat stringToNumber localeCompare nowIso config
             cursorText seenIds liveStories feed = Inr result"
    and "distinct (map story_storyObjectId liveStories)"
  shows "distinct (map story_storyObjectId (currentStories result))"
  using assms
  by (auto simp: fetchStoryChanges_def Let_def distinct_map_array_sort
      split: if_splits sum.splits)

text \<open>
  Claim C7, as amended.  A poll calls the notification engine at most once, and only
  after a successful fetch in which the number of testing-required stories differs
  from the number in the state the poll works on: that of the persisted set when the
  persisted scope key is the one derived from the configuration, and zero after a
  scope reset or when nothing is persisted (an equal number gives no call, whatever
  the members).  The added list of the call is the current members whose story id is
  absent from that previous set, the removed list is the previous members whose story
  id is absent from the current set.  When the live stories have pairwise distinct
  ids, as those that \<open>fetchStoryChanges\<close> returns from \<open>fetchStoriesInIteration\<close> always
  have, and the previous members have pairwise distinct ids, the two lists are not both
  empty; a call with both lists empty makes the engine return without dispatching
  anything.
\<close>

theorem pollTracker_notification:
  "(let previous =
          (case trackers (tracker_id tracker) of
             Some s \<Rightarrow>
               if scopeKey s = createScopeKey tracker then testingRequiredStories s else []
           | None \<Rightarrow> []);
        st = pollTracker_trackerState tracker trackers;
        out = pollTracker dateParse fetch notify notifiedAt tracker trackers
    in testingRequiredStories st = previous
     \<and> length (out_notifyCalls out) \<le> 1
     \<and> (\<forall>e. fetch (pollTracker_cursor tracker st) (set (seenChangeIds st)) = Inl e
            \<longrightarrow> out_notifyCalls out = [])
     \<and> (\<forall>result. fetch (pollTracker_cursor tracker st) (set (seenChangeIds st)) = Inr result
            \<longrightarrow> (let cur = map toRef (getTestingRequiredStories (currentStories result));
                     added = filter (\<lambda>s. ref_storyObjectId s
                                       \<notin> ref_storyObjectId ` set previous) cur;
                     removed = filter (\<lambda>s. ref_storyObjectId s
                                         \<notin> ref_storyObjectId ` set cur) previous
                 in (length cur = length previous \<longrightarrow> out_notifyCalls out = [])
                  \<and> (length cur \<noteq> length previous
                        \<longrightarrow> out_notifyCalls out = [(added, removed)])
                  \<and> (length cur \<noteq> length previous
                       \<and> distinct (map story_storyObjectId (currentStories result))
                       \<and> distinct (map ref_storyObjectId previous)
                      \<longrightarrow> added \<noteq> [] \<or> removed \<noteq> []))))
   \<and> (\<forall>result.
         fetchStoryChanges feedDateParse isoFormat stringToNumber localeCompare nowIso config
           cursorText seenIds
           (fetchStoriesInIteration clientConfig projects iterationOids storiesById storiesByName)
           feed = Inr result
       \<longrightarrow> distinct (map story_storyObjectId (currentStories result)))
   \<and> notifyTestingRequiredChange h permissionReady [] [] = ([], permissionReady)"
proof -
  let ?st = "pollTracker_trackerState tracker trackers"
  let ?prev = "testingRequiredStories ?st"
  let ?previous = "case trackers (tracker_id tracker) of
             Some s \<Rightarrow>
               if scopeKey s = createScopeKey tracker then testingRequiredStories s else []
           | None \<Rightarrow> []"
  let ?out = "pollTracker dateParse fetch notify notifiedAt tracker trackers"
  let ?f = "fetch (pollTracker_cursor tracker ?st) (set (seenChangeIds ?st))"
  have p: "?prev = ?previous"
    by (simp add: pollTracker_trackerState_def Let_def createFreshTrackerState_def
        DEFAULT_TRACKER_STATE_def split: option.splits)
  have one: "length (out_notifyCalls ?out) \<le> 1"
    by (simp add: pollTracker_def Let_def split: sum.splits option.splits)
  have err: "out_notifyCalls ?out = []" if "?f = Inl e" for e
    using that by (simp add: pollTracker_def Let_def)
  have same: "out_notifyCalls ?out = []"
    if "?f = Inr result"
      and "length (map toRef (getTestingRequiredStories (currentStories result))) = length ?prev"
    for result
    using that by (simp add: pollTracker_def Let_def split: option.splits)
  have diff: "out_notifyCalls ?out =
      [(filter (\<lambda>s. ref_storyObjectId s \<notin> ref_storyObjectId ` set ?prev)
          (map toRef (getTestingRequiredStories (currentStories result))),
        filter (\<lambda>s. ref_storyObjectId s
                 \<notin> ref_storyObjectId ` set (map toRef (getTestingRequiredStories (currentStories result))))
          ?prev)]"
    if "?f = Inr result"
      and "length (map toRef (getTestingRequiredStories (currentStories result))) \<noteq> length ?prev"
    for result
    using that by (simp add: pollTracker_def Let_def split: option.splits)
  have nonempty:
    "filter (\<lambda>s. ref_storyObjectId s \<notin> ref_storyObjectId ` set ?prev)
          (map toRef (getTestingRequiredStories (currentStories result))) \<noteq> []
     \<or> filter (\<lambda>s. ref_storyObjectId s
                 \<notin> ref_storyObjectId ` set (map toRef (getTestingRequiredStories (currentStories result))))
          ?prev \<noteq> []"
    if "length (map toRef (getTestingRequiredStories (currentStories result))) \<noteq> length ?prev"
      and "distinct (map story_storyObjectId (currentStories result))"
      and "distinct (map ref_storyObjectId ?prev)"
    for result
    using added_removed_not_both_empty [OF distinct_testing_required [OF that(2)] that(3) that(1)] .
  have live: "distinct (map story_storyObjectId (currentStories result))"
    if "fetchStoryChanges feedDateParse isoFormat stringToNumber localeCompare nowIso config
           cursorText seenIds
           (fetchStoriesInIteration clientConfig projects iterationOids storiesById storiesByName)
           feed = Inr result"
    for result
    using that distinct_fetchStoriesInIteration by (rule distinct_fetchStoryChanges)
  have engine: "notifyTestingRequiredChange h permissionReady [] [] = ([], permissionReady)"
    by (simp add: notifyTestingRequiredChange_def)
  have main: "?prev = ?previous
     \<and> length (out_notifyCalls ?out) \<le> 1
     \<and> (\<forall>e. ?f = Inl e \<longrightarrow> out_notifyCalls ?out = [])
     \<and> (\<forall>result. ?f = Inr result
            \<longrightarrow> (let cur = map toRef (getTestingRequiredStories (currentStories result));
                     added = filter (\<lambda>s. ref_storyObjectId s
                                       \<notin> ref_storyObjectId ` set ?prev) cur;
                     removed = filter (\<lambda>s. ref_storyObjectId s
                                         \<notin> ref_storyObjectId ` set cur) ?prev
                 in (length cur = length ?prev \<longrightarrow> out_notifyCalls ?out = [])
                  \<and> (length cur \<noteq> length ?prev
                        \<longrightarrow> out_notifyCalls ?out = [(added, removed)])
                  \<and> (length cur \<noteq> length ?prev
                       \<and> distinct (map story_storyObjectId (currentStories result))
                       \<and> distinct (map ref_storyObjectId ?prev)
                      \<longrightarrow> added \<noteq> [] \<or> removed \<noteq> [])))"
    unfolding Let_def
    using p one err same diff nonempty by blast
  have conj1: "(let previous = ?previous; st = ?st; out = ?out
    in testingRequiredStories st = previous
     \<and> length (out_notifyCalls out) \<le> 1
     \<and> (\<forall>e. fetch (pollTracker_cursor tracker st) (set (seenChangeIds st)) = Inl e
            \<longrightarrow> out_notifyCalls out = [])
     \<and> (\<forall>result. fetch (pollTracker_cursor tracker st) (set (seenChangeIds st)) = Inr result
            \<longrightarrow> (let cur = map toRef (getTestingRequiredStories (currentStories result));
                     added = filter (\<lambda>s. ref_storyObjectId s
                                       \<notin> ref_storyObjectId ` set previous) cur;
                     removed = filter (\<lambda>s. ref_storyObjectId s
                                         \<notin> ref_storyObjectId ` set cur) previous
                 in (length cur = length previous \<longrightarrow> out_notifyCalls out = [])
                  \<and> (length cur \<noteq> length previous
                        \<longrightarrow> out_notifyCalls out = [(added, removed)])
                  \<and> (length cur \<noteq> length previous
                       \<and> distinct (map story_storyObjectId (currentStories result))
                       \<and> distinct (map ref_storyObjectId previous)
                      \<longrightarrow> added \<noteq> [] \<or> removed \<noteq> []))))"
    using main unfolding Let_def p .
  from conj1 live engine show ?thesis
    by blast
qed

theorem pollTracker_notification_witness:
  "sampleLiveFetch ''2024-03-01T00:00:00.000Z'' {''a'', ''b'', ''c''}
     = Inr \<lparr>currentStories =
              [sampleTestingStory 8, sampleTestingStory 9, sampleTestingStory 10,
               sampleStory 11 ''US11'' (Some False) (Some ''In Progress'')],
            newChanges = [], result_cursor = ''2024-03-01T00:00:05.000Z'', errors = None\<rparr>
   \<and> distinct (map story_storyObjectId
        [sampleTestingStory 8, sampleTestingStory 9, sampleTestingStory 10,
         sampleStory 11 ''US11'' (Some False) (Some ''In Progress'')])
   \<and> distinct (map ref_storyObjectId [sampleRef 7, sampleRef 8])
   \<and> out_notifyCalls (pollTracker sampleParse sampleLiveFetch noNotifyError
        ''2024-03-01T00:00:06.000Z''
        (sampleTracker ''1'' [''2''] ''3'' ''2024-01-01T00:00:00.000Z'')
        (sampleStored [sampleRef 7, sampleRef 8]))
     = [([sampleRef 9, sampleRef 10], [sampleRef 7])]
   \<and> length (out_notifyCalls (pollTracker sampleParse sampleLiveFetch noNotifyError
        ''2024-03-01T00:00:06.000Z''
        (sampleTracker ''1'' [''2''] ''3'' ''2024-01-01T00:00:00.000Z'')
        (sampleStored [sampleRef 7, sampleRef 8]))) \<le> 1
   \<and> testingRequiredStories (pollTracker_trackerState
        (sampleTracker ''1'' [''2''] ''3'' ''2024-01-01T00:00:00.000Z'')
        (sampleStored [sampleRef 7, sampleRef 8])) = [sampleRef 7, sampleRef 8]
   \<and> notifyTestingRequiredChange sampleHost False [] [] = ([], False)"
proof -
  let ?t = "sampleTracker ''1'' [''2''] ''3'' ''2024-01-01T00:00:00.000Z''"
  let ?live = "[sampleTestingStory 8, sampleTestingStory 9, sampleTestingStory 10,
               sampleStory 11 ''US11'' (Some False) (Some ''In Progress'')]"
  let ?r = "\<lparr>currentStories = ?live, newChanges = [],
             result_cursor = ''2024-03-01T00:00:05.000Z'', errors = None\<rparr>"
  let ?out = "pollTracker sampleParse sampleLiveFetch noNotifyError ''2024-03-01T00:00:06.000Z''
        ?t (sampleStored [sampleRef 7, sampleRef 8])"
  have f: "sampleLiveFetch ''2024-03-01T00:00:00.000Z'' {''a'', ''b'', ''c''} = Inr ?r"
    by code_simp
  have g: "fetchStoryChanges sampleParse sampleIso sampleStringToNumber (\<lambda>a b. 0)
       ''2024-03-01T00:00:05.000Z'' ?t ''2024-03-01T00:00:00.000Z'' {''a'', ''b'', ''c''}
       (fetchStoriesInIteration ?t [''2''] [3] sampleStoriesById (\<lambda>projectOid. []))
       sampleFeed = Inr ?r"
    using f by (simp only: sampleLiveFetch_def)
  have c: "out_notifyCalls ?out = [([sampleRef 9, sampleRef 10], [sampleRef 7])]"
    by code_simp
  have k: "createScopeKey ?t = ''1|2|3''"
    by code_simp
  have s: "sampleStored [sampleRef 7, sampleRef 8] (tracker_id ?t)
      = Some (sampleState\<lparr>testingRequiredStories := [sampleRef 7, sampleRef 8]\<rparr>)"
    by (simp add: sampleStored_def sampleTracker_def)
  have dp: "distinct (map ref_storyObjectId [sampleRef 7, sampleRef 8])"
    by (simp add: sampleRef_def)
  note w = pollTracker_notification
    [where tracker = ?t and trackers = "sampleStored [sampleRef 7, sampleRef 8]"
       and dateParse = sampleParse and fetch = sampleLiveFetch and notify = noNotifyError
       and notifiedAt = "''2024-03-01T00:00:06.000Z''"
       and feedDateParse = sampleParse and isoFormat = sampleIso
       and stringToNumber = sampleStringToNumber and localeCompare = "\<lambda>a b. 0"
       and nowIso = "''2024-03-01T00:00:05.000Z''" and config = ?t
       and cursorText = "''2024-03-01T00:00:00.000Z''" and seenIds = "{''a'', ''b'', ''c''}"
       and clientConfig = ?t and projects = "[''2'']" and iterationOids = "[3]"
       and storiesById = sampleStoriesById and storiesByName = "\<lambda>projectOid. []"
       and feed = sampleFeed and h = sampleHost and permissionReady = False,
     unfolded Let_def]
  from w g have d: "distinct (map story_storyObjectId ?live)"
    by fastforce
  from w have l: "length (out_notifyCalls ?out) \<le> 1"
    and n: "notifyTestingRequiredChange sampleHost False [] [] = ([], False)"
    by blast+
  from w have "testingRequiredStories (pollTracker_trackerState ?t
        (sampleStored [sampleRef 7, sampleRef 8]))
      = (case sampleStored [sampleRef 7, sampleRef 8] (tracker_id ?t) of
             Some s \<Rightarrow>
               if scopeKey s = createScopeKey ?t then testingRequiredStories s else []
           | None \<Rightarrow> [])"
    by blast
  then have p: "testingRequiredStories (pollTracker_trackerState ?t
        (sampleStored [sampleRef 7, sampleRef 8])) = [sampleRef 7, sampleRef 8]"
    by (simp add: s k sampleState_def)
  from f d dp c l p n show ?thesis
    by (simp only: simp_thms)
qed

text \<open>
  The claim as stated fails in two ways.  When the persisted set repeats a story id,
  the sizes differ, the engine is called, and both lists are empty.  When the
  persisted state belongs to another scope, the poll compares with the empty set of
  the fresh state: with one persisted member and the same story as the one current
  member the sizes of the persisted and the current set are equal, and the engine is
  called all the same.
\<close>

theorem pollTracker_notifies_against_claim:
  "out_notifyCalls (pollTracker sampleParse (sampleFetch [sampleTestingStory 7]) noNotifyError
        ''2024-03-01T00:00:05.000Z''
        (sampleTracker ''1'' [''2''] ''3'' ''2024-01-01T00:00:00.000Z'')
        (sampleStored [sampleRef 7, sampleRef 7]))
     = [([], [])]
   \<and> map_option testingRequiredStories (sampleStored [sampleRef 7] ''trk_1'')
       = Some [sampleRef 7]
   \<and> map toRef (getTestingRequiredStories [sampleTestingStory 7]) = [sampleRef 7]
   \<and> out_notifyCalls (pollTracker sampleParse (sampleFetch [sampleTestingStory 7]) noNotifyError
        ''2024-03-01T00:00:05.000Z''
        (sampleTracker ''10'' [''21''] ''30'' ''2024-01-01T00:00:00.000Z'')
        (sampleStored [sampleRef 7]))
     = [([sampleRef 7], [])]"
  by code_simp

section \<open>Retry and backoff\<close>

lemma snd_afterSleep [simp]: "snd (afterSleep a r) = backoffMs a # snd r"
  and fst_afterSleep [simp]: "fst (afterSleep a r) = fst r"
  by (simp_all add: afterSleep_def)

lemma request_auth:
  "isAuthStatus (transport attempt) \<Longrightarrow>
     request transport jsonParse attempt
       = (Inl (RallyAuthError ''Invalid or unauthorized Rally API key''), [])"
  by (subst request.simps) (auto simp: isAuthStatus_def split: transportOutcome.splits)

lemma request_transient:
  "isTransient (transport attempt) \<Longrightarrow> attempt < MAX_RETRIES \<Longrightarrow>
     request transport jsonParse attempt
       = afterSleep attempt (request transport jsonParse (attempt + 1))"
  by (subst request.simps) (auto simp: isTransient_def split: transportOutcome.splits)

lemma request_cases:
  "request transport jsonParse attempt = (r, ds) \<Longrightarrow>
     (ds = [] \<and> (isRallyAuthError r \<longleftrightarrow> isAuthStatus (transport attempt)))
     \<or> (attempt < MAX_RETRIES \<and> \<not> isAuthStatus (transport attempt)
        \<and> request transport jsonParse attempt
             = afterSleep attempt (request transport jsonParse (attempt + 1)))"
  by (subst (asm) request.simps, subst request.simps)
     (auto simp: isAuthStatus_def isRallyAuthError_def
           split: transportOutcome.splits if_splits option.splits)

lemma request_sleeps:
  "snd (request transport jsonParse attempt)
     = map backoffMs [attempt ..< attempt + length (snd (request transport jsonParse attempt))]
   \<and> attempt + length (snd (request transport jsonParse attempt)) \<le> max attempt MAX_RETRIES
   \<and> (isRallyAuthError (fst (request transport jsonParse attempt))
        \<longleftrightarrow> isAuthStatus
              (transport (attempt + length (snd (request transport jsonParse attempt)))))"
proof (induction "MAX_RETRIES - attempt" arbitrary: attempt)
  case 0
  obtain r ds where e: "request transport jsonParse attempt = (r, ds)"
    by (cases "request transport jsonParse attempt")
  from request_cases [OF e] 0 e show ?case by auto
next
  case (Suc n)
  obtain r ds where e: "request transport jsonParse attempt = (r, ds)"
    by (cases "request transport jsonParse attempt")
  from request_cases [OF e] show ?case
  proof
    assume "ds = [] \<and> (isRallyAuthError r \<longleftrightarrow> isAuthStatus (transport attempt))"
    with e show ?thesis by auto
  next
    assume a: "attempt < MAX_RETRIES \<and> \<not> isAuthStatus (transport attempt)
        \<and> request transport jsonParse attempt
             = afterSleep attempt (request transport jsonParse (attempt + 1))"
    have "n = MAX_RETRIES - (attempt + 1)" using Suc.hyps(2) by simp
    from Suc.hyps(1) [OF this] a show ?thesis
      by (simp add: upt_rec [of attempt] max_def split: if_splits)
  qed
qed

lemma backoffMs_facts:
  "backoffMs 0 = 500" "backoffMs (Suc k) = min 4000 (2 * backoffMs k)" "backoffMs k \<le> 4000"
  by (simp_all add: backoffMs_def min_def)

lemma request_exhausts:
  assumes "\<forall>k. attempt \<le> k \<and> k \<le> MAX_RETRIES \<longrightarrow> isTransient (transport k)"
    and "attempt \<le> MAX_RETRIES"
  shows "snd (request transport jsonParse attempt) = map backoffMs [attempt ..< MAX_RETRIES]
       \<and> isOtherError (fst (request transport jsonParse attempt))"
  using assms
proof (induction "MAX_RETRIES - attempt" arbitrary: attempt)
  case 0
  then have "attempt = MAX_RETRIES" by simp
  moreover have "isTransient (transport MAX_RETRIES)" using 0 by simp
  ultimately show ?case
    by (subst (1 2) request.simps)
       (auto simp: isTransient_def isOtherError_def split: transportOutcome.splits)
next
  case (Suc n)
  then have lt: "attempt < MAX_RETRIES" by simp
  have t: "isTransient (transport attempt)" using Suc.prems by simp
  have step: "request transport jsonParse attempt
      = afterSleep attempt (request transport jsonParse (attempt + 1))"
    using t lt by (rule request_transient)
  have "n = MAX_RETRIES - (attempt + 1)" using Suc.hyps(2) by simp
  from Suc.hyps(1) [OF this] Suc.prems lt
  have "snd (request transport jsonParse (attempt + 1))
          = map backoffMs [attempt + 1 ..< MAX_RETRIES]
       \<and> isOtherError (fst (request transport jsonParse (attempt + 1)))"
    by simp
  with lt show ?case
    by (simp add: step upt_rec [of attempt])
qed

text \<open>
  Claim C6.  A response with status 401 or 403, at any attempt, ends the request at
  once with the \<open>RallyAuthError\<close>, no delay and no further attempt; the result of a
  request is a \<open>RallyAuthError\<close> exactly when its last response had such a status.  A
  request sleeps at most 3 times (so it makes at most 3 attempts after the first),
  the delay before retry \<open>k\<close> being \<open>backoffMs k\<close>, which starts at 500, doubles with
  each attempt and is capped at 4000.  A transport failure or a response with status
  429 or at least 500 before the third retry is followed by the delay and the next
  attempt; when all four attempts fail in this way the delays are 500, 1000 and 2000 and
  the caller gets an \<open>Error\<close>.
\<close>

theorem request_retry_policy:
  "(isAuthStatus (transport attempt)
      \<longrightarrow> request transport jsonParse attempt
            = (Inl (RallyAuthError ''Invalid or unauthorized Rally API key''), []))
   \<and> (isRallyAuthError (fst (request transport jsonParse 0))
        \<longleftrightarrow> isAuthStatus (transport (length (snd (request transport jsonParse 0)))))
   \<and> length (snd (request transport jsonParse 0)) \<le> 3
   \<and> snd (request transport jsonParse 0)
       = map backoffMs [0 ..< length (snd (request transport jsonParse 0))]
   \<and> (isTransient (transport attempt) \<and> attempt < 3
        \<longrightarrow> request transport jsonParse attempt
              = afterSleep attempt (request transport jsonParse (attempt + 1)))
   \<and> ((\<forall>k. k \<le> 3 \<longrightarrow> isTransient (transport k))
        \<longrightarrow> snd (request transport jsonParse 0) = [500, 1000, 2000]
            \<and> isOtherError (fst (request transport jsonParse 0)))
   \<and> backoffMs 0 = 500
   \<and> backoffMs (Suc k) = min 4000 (2 * backoffMs k)
   \<and> backoffMs k \<le> 4000"
proof -
  note s = request_sleeps [of transport jsonParse 0]
  have a: "isAuthStatus (transport attempt)
      \<longrightarrow> request transport jsonParse attempt
            = (Inl (RallyAuthError ''Invalid or unauthorized Rally API key''), [])"
    using request_auth by blast
  have b: "isRallyAuthError (fst (request transport jsonParse 0))
        \<longleftrightarrow> isAuthStatus (transport (length (snd (request transport jsonParse 0))))"
    using s by simp
  have c: "length (snd (request transport jsonParse 0)) \<le> 3"
    using s by (simp add: MAX_RETRIES_def)
  have d: "snd (request transport jsonParse 0)
       = map backoffMs [0 ..< length (snd (request transport jsonParse 0))]"
    using s by simp
  have e: "isTransient (transport attempt) \<and> attempt < 3
        \<longrightarrow> request transport jsonParse attempt
              = afterSleep attempt (request transport jsonParse (attempt + 1))"
    using request_transient [of transport attempt jsonParse] by (simp add: MAX_RETRIES_def)
  have f: "(\<forall>k. k \<le> 3 \<longrightarrow> isTransient (transport k))
        \<longrightarrow> snd (request transport jsonParse 0) = [500, 1000, 2000]
            \<and> isOtherError (fst (request transport jsonParse 0))"
  proof
    assume "\<forall>k. k \<le> 3 \<longrightarrow> isTransient (transport k)"
    then have "\<forall>k. 0 \<le> k \<and> k \<le> MAX_RETRIES \<longrightarrow> isTransient (transport k)"
      by (simp add: MAX_RETRIES_def)
    from request_exhausts [where jsonParse = jsonParse, OF this]
    have "snd (request transport jsonParse 0) = map backoffMs [0 ..< MAX_RETRIES]"
      and o: "isOtherError (fst (request transport jsonParse 0))"
      by simp_all
    moreover have "map backoffMs [0 ..< MAX_RETRIES] = [500, 1000, 2000]"
      by (simp add: MAX_RETRIES_def backoffMs_def upt_rec numeral_eq_Suc)
    ultimately show "snd (request transport jsonParse 0) = [500, 1000, 2000]
            \<and> isOtherError (fst (request transport jsonParse 0))"
      by simp
  qed
  from a b c d e f backoffMs_facts(1) backoffMs_facts(2) [of k] backoffMs_facts(3) [of k]
  show ?thesis
    by (simp only: simp_thms)
qed

theorem request_retry_policy_witness:
  "isAuthStatus (sampleTransport [TransportResponded 503 ''busy'', TransportResponded 401 ''no''] 1)
   \<and> request (sampleTransport [TransportResponded 503 ''busy'', TransportResponded 401 ''no''])
        sampleJson 1
       = (Inl (RallyAuthError ''Invalid or unauthorized Rally API key''), [])
   \<and> isTransient (sampleTransport [TransportResponded 503 ''busy'', TransportResponded 401 ''no''] 0)
   \<and> request (sampleTransport [TransportResponded 503 ''busy'', TransportResponded 401 ''no''])
        sampleJson 0
       = (Inl (RallyAuthError ''Invalid or unauthorized Rally API key''), [500])
   \<and> snd (request (sampleTransport [TransportThrew ''reset'', TransportResponded 503 ''busy'',
             TransportResponded 429 ''slow down'', TransportResponded 500 ''down''])
        sampleJson 0) = [500, 1000, 2000]
   \<and> isOtherError (fst (request (sampleTransport [TransportThrew ''reset'',
             TransportResponded 503 ''busy'', TransportResponded 429 ''slow down'',
             TransportResponded 500 ''down'']) sampleJson 0))"
proof -
  let ?t1 = "sampleTransport [TransportResponded 503 ''busy'', TransportResponded 401 ''no'']"
  let ?t2 = "sampleTransport [TransportThrew ''reset'', TransportResponded 503 ''busy'',
             TransportResponded 429 ''slow down'', TransportResponded 500 ''down'']"
  have a1: "isAuthStatus (?t1 1)"
    by (simp add: sampleTransport_def isAuthStatus_def)
  have t0: "isTransient (?t1 0)"
    by (simp add: sampleTransport_def isTransient_def)
  have all: "\<forall>k. k \<le> 3 \<longrightarrow> isTransient (?t2 k)"
    by (simp add: sampleTransport_def isTransient_def nth_Cons split: nat.splits)
  from request_retry_policy [of ?t1 1 sampleJson 0] a1
  have r1: "request ?t1 sampleJson 1
       = (Inl (RallyAuthError ''Invalid or unauthorized Rally API key''), [])"
    by blast
  from request_retry_policy [of ?t1 0 sampleJson 0] t0
  have "request ?t1 sampleJson 0 = afterSleep 0 (request ?t1 sampleJson (0 + 1))"
    by simp
  with r1 have r0: "request ?t1 sampleJson 0
       = (Inl (RallyAuthError ''Invalid or unauthorized Rally API key''), [500])"
    by (simp add: afterSleep_def backoffMs_def)
  from request_retry_policy [of ?t2 0 sampleJson 0] all
  have r2: "snd (request ?t2 sampleJson 0) = [500, 1000, 2000]
            \<and> isOtherError (fst (request ?t2 sampleJson 0))"
    by blast
  from a1 r1 t0 r0 r2 show ?thesis
    by (simp only: simp_thms)
qed

section \<open>Lower bound of the feed query\<close>

text \<open>
  Claim C2.  For a cursor that parses, \<open>computeSnapshotSince\<close> returns the ISO text of
  the later of the iteration start and the cursor minus 15 minutes, or of the cursor
  minus 15 minutes alone when the start date does not parse.  The query that
  \<open>fetchStoryChanges\<close> has the client send carries this text as the bound of a \<open>$gte\<close>
  clause on \<open>_ValidFrom\<close>, which a record whose time equals the bound satisfies.
\<close>

theorem computeSnapshotSince_lower_bound:
  assumes "dateParse cursorText = Some cursorMs"
  shows "computeSnapshotSince dateParse isoFormat cursorText startDate
           = Date_toISOString isoFormat
               (case dateParse startDate of
                  Some startMs \<Rightarrow> max startMs (cursorMs - 15 * 60 * 1000)
                | None \<Rightarrow> cursorMs - 15 * 60 * 1000)
       \<and> (\<forall>since.
             computeSnapshotSince dateParse isoFormat cursorText (iterationStartDate config)
               = Inr since
             \<and> iterationOid config \<noteq> [] \<and> projectOids config \<noteq> [] \<and> iterationOids \<noteq> []
           \<longrightarrow> (\<exists>q. fetchStoryChanges_query dateParse isoFormat config cursorText iterationOids
                      = Inr (Some q)
                  \<and> find_ValidFrom q = (Gte, since)
                  \<and> (\<forall>bound t. t = bound \<longrightarrow> rangeHolds (fst (find_ValidFrom q)) bound t)))"
proof -
  have a: "computeSnapshotSince dateParse isoFormat cursorText startDate
           = Date_toISOString isoFormat
               (case dateParse startDate of
                  Some startMs \<Rightarrow> max startMs (cursorMs - 15 * 60 * 1000)
                | None \<Rightarrow> cursorMs - 15 * 60 * 1000)"
    using assms
    by (simp add: computeSnapshotSince_def SNAPSHOT_OVERLAP_MS_def Let_def max.commute
        split: option.splits)
  have b: "\<exists>q. fetchStoryChanges_query dateParse isoFormat config cursorText iterationOids
                      = Inr (Some q)
                  \<and> find_ValidFrom q = (Gte, since)
                  \<and> (\<forall>bound t. t = bound \<longrightarrow> rangeHolds (fst (find_ValidFrom q)) bound t)"
    if "computeSnapshotSince dateParse isoFormat cursorText (iterationStartDate config)
          = Inr since"
      and "iterationOid config \<noteq> []" and "projectOids config \<noteq> []" and "iterationOids \<noteq> []"
    for since
    using that
    by (simp add: fetchStoryChanges_query_def fetchSnapshots_query_def rangeHolds_def)
  from a b show ?thesis by blast
qed

theorem computeSnapshotSince_lower_bound_witness:
  "sampleParse ''2024-01-01T01:00:00.000Z'' = Some 1704070800000
   \<and> computeSnapshotSince sampleParse sampleIso ''2024-01-01T01:00:00.000Z''
        ''2024-01-01T00:00:00.000Z'' = Inr ''2024-01-01T00:45:00.000Z''
   \<and> computeSnapshotSince sampleParse sampleIso ''2024-01-01T01:00:00.000Z'' ''no date''
       = Inr ''2024-01-01T00:45:00.000Z''
   \<and> computeSnapshotSince sampleParse sampleIso ''2024-01-01T00:00:00.000Z''
        ''2024-01-01T00:00:00.000Z'' = Inr ''2024-01-01T00:00:00.000Z''
   \<and> (\<exists>q. fetchStoryChanges_query sampleParse sampleIso
              (sampleTracker ''1'' [''2''] ''3'' ''2024-01-01T00:00:00.000Z'')
              ''2024-01-01T01:00:00.000Z'' [3] = Inr (Some q)
          \<and> find_ValidFrom q = (Gte, ''2024-01-01T00:45:00.000Z'')
          \<and> rangeHolds (fst (find_ValidFrom q)) 1704069900000 1704069900000)"
proof -
  let ?t = "sampleTracker ''1'' [''2''] ''3'' ''2024-01-01T00:00:00.000Z''"
  have p: "sampleParse ''2024-01-01T01:00:00.000Z'' = Some 1704070800000"
    and p0: "sampleParse ''2024-01-01T00:00:00.000Z'' = Some 1704067200000"
    and pn: "sampleParse ''no date'' = None"
    by (simp_all add: sampleParse_def)
  have t: "iterationStartDate ?t = ''2024-01-01T00:00:00.000Z''" "iterationOid ?t \<noteq> []"
    "projectOids ?t \<noteq> []"
    by (simp_all add: sampleTracker_def)
  have i: "Date_toISOString sampleIso 1704069900000 = Inr ''2024-01-01T00:45:00.000Z''"
    "Date_toISOString sampleIso 1704067200000 = Inr ''2024-01-01T00:00:00.000Z''"
    by (simp_all add: Date_toISOString_def sampleIso_def)
  note w = computeSnapshotSince_lower_bound
    [where dateParse = sampleParse and cursorText = "''2024-01-01T01:00:00.000Z''"
       and cursorMs = 1704070800000 and isoFormat = sampleIso and config = ?t
       and iterationOids = "[3]", OF p]
  have c1: "computeSnapshotSince sampleParse sampleIso ''2024-01-01T01:00:00.000Z''
        ''2024-01-01T00:00:00.000Z'' = Inr ''2024-01-01T00:45:00.000Z''"
    using w [where startDate = "''2024-01-01T00:00:00.000Z''"] by (simp add: p0 i)
  have c2: "computeSnapshotSince sampleParse sampleIso ''2024-01-01T01:00:00.000Z'' ''no date''
       = Inr ''2024-01-01T00:45:00.000Z''"
    using w [where startDate = "''no date''"] by (simp add: pn i)
  have c3: "computeSnapshotSince sampleParse sampleIso ''2024-01-01T00:00:00.000Z''
        ''2024-01-01T00:00:00.000Z'' = Inr ''2024-01-01T00:00:00.000Z''"
    using computeSnapshotSince_lower_bound
      [where dateParse = sampleParse and cursorText = "''2024-01-01T00:00:00.000Z''"
         and cursorMs = 1704067200000 and isoFormat = sampleIso
         and startDate = "''2024-01-01T00:00:00.000Z''" and config = ?t
         and iterationOids = "[3]", OF p0]
    by (simp add: p0 i)
  have "\<exists>q. fetchStoryChanges_query sampleParse sampleIso ?t ''2024-01-01T01:00:00.000Z'' [3]
              = Inr (Some q)
          \<and> find_ValidFrom q = (Gte, ''2024-01-01T00:45:00.000Z'')
          \<and> (\<forall>bound t. t = bound \<longrightarrow> rangeHolds (fst (find_ValidFrom q)) bound t)"
    using w [where startDate = "''2024-01-01T00:00:00.000Z''"] c1 t by simp
  then have c4: "\<exists>q. fetchStoryChanges_query sampleParse sampleIso ?t
              ''2024-01-01T01:00:00.000Z'' [3] = Inr (Some q)
          \<and> find_ValidFrom q = (Gte, ''2024-01-01T00:45:00.000Z'')
          \<and> rangeHolds (fst (find_ValidFrom q)) 1704069900000 1704069900000"
    by blast
  from p c1 c2 c3 c4 show ?thesis
    by (simp only: simp_thms)
qed

section \<open>Change identity and changed fields\<close>

lemma changeOfSnapshot_unseen:
  assumes "jsNumber stringToNumber (getProp snapshot ''ObjectID'') = Some n"
    and "snapshotValidFrom snapshot \<noteq> []"
    and "extractChangedFields snapshot \<noteq> []"
  shows "\<exists>c. changeOfSnapshot stringToNumber {} snapshot = Some c
    \<and> changeId c = simpleHash (numberToString n @ '':'' @ snapshotValidFrom snapshot @ '':''
                       @ join '','' (extractChangedFields snapshot))
    \<and> storyObjectId c = n
    \<and> changedAt c = snapshotValidFrom snapshot
    \<and> changedFields c = extractChangedFields snapshot
    \<and> (\<forall>seenIds. changeOfSnapshot stringToNumber seenIds snapshot
           = (if changeId c \<in> seenIds then None else Some c))"
  using assms by (simp add: changeOfSnapshot_def Let_def)

lemma changeOfSnapshot_Some:
  assumes "changeOfSnapshot stringToNumber seenIds snapshot = Some c"
  shows "changedFields c = extractChangedFields snapshot
    \<and> changedFields c \<noteq> []
    \<and> changedAt c = snapshotValidFrom snapshot
    \<and> jsNumber stringToNumber (getProp snapshot ''ObjectID'') = Some (storyObjectId c)
    \<and> changeId c = simpleHash (numberToString (storyObjectId c) @ '':'' @ changedAt c @ '':''
                       @ join '','' (changedFields c))
    \<and> changeId c \<notin> seenIds"
  using assms
  by (auto simp: changeOfSnapshot_def Let_def split: option.splits if_splits)

lemma set_insertBy [simp]: "set (insertBy compare x xs) = insert x (set xs)"
  by (induction xs) auto

lemma set_array_sort [simp]: "set (array_sort compare xs) = set xs"
  by (induction xs) (simp_all add: array_sort_def)

lemma set_Map_set_subset: "snd ` set (Map_set k v m) \<subseteq> insert v (snd ` set m)"
proof (induction m)
  case Nil
  then show ?case by simp
next
  case (Cons p m)
  obtain k' v' where p: "p = (k', v')" by (cases p)
  show ?case
  proof (cases "k' = k")
    case True
    then show ?thesis by (auto simp: p)
  next
    case False
    with Cons show ?thesis by (auto simp: p)
  qed
qed

lemma set_fold_Map_set_subset:
  "snd ` set (fold (\<lambda>change m. Map_set (f change) change m) xs m) \<subseteq> set xs \<union> snd ` set m"
proof (induction xs arbitrary: m)
  case Nil
  then show ?case by simp
next
  case (Cons x xs)
  have "snd ` set (fold (\<lambda>change m. Map_set (f change) change m) xs (Map_set (f x) x m))
      \<subseteq> set xs \<union> snd ` set (Map_set (f x) x m)"
    by (rule Cons.IH)
  also have "\<dots> \<subseteq> set xs \<union> insert x (snd ` set m)"
    using set_Map_set_subset [of "f x" x m] by blast
  finally show ?case by auto
qed

lemma set_dedupe_subset: "set (dedupe dateParse changes) \<subseteq> set changes"
  using set_fold_Map_set_subset [of changeId changes "[]"]
  by (simp add: dedupe_def Map_values_def)

lemma fetchStoryChanges_newChanges:
  assumes "fetchStoryChanges dateParse isoFormat stringToNumber localeCompare nowIso config
             cursorText seenIds liveStories feed = Inr result"
    and "c \<in> set (newChanges result)"
  shows "\<exists>since snapshot. snapshot \<in> set (feed since)
      \<and> changeOfSnapshot stringToNumber seenIds snapshot = Some c"
proof (cases "iterationOid config = []")
  case True
  with assms show ?thesis
    by (auto simp: fetchStoryChanges_def)
next
  case False
  with assms(1) obtain since where
    r: "result = \<lparr>currentStories =
                     array_sort (\<lambda>a b. localeCompare (story_formattedId a) (story_formattedId b))
                       liveStories,
                   newChanges =
                     dedupe dateParse
                       (array_sort (byChangedAtDesc dateParse)
                          (List.map_filter (changeOfSnapshot stringToNumber seenIds) (feed since))),
                   result_cursor = nowIso, errors = None\<rparr>"
    by (auto simp: fetchStoryChanges_def Let_def split: sum.splits)
  from assms(2) have "c \<in> set (dedupe dateParse
                       (array_sort (byChangedAtDesc dateParse)
                          (List.map_filter (changeOfSnapshot stringToNumber seenIds) (feed since))))"
    by (simp add: r)
  with set_dedupe_subset
  have "c \<in> set (List.map_filter (changeOfSnapshot stringToNumber seenIds) (feed since))"
    by fastforce
  then obtain snapshot where "snapshot \<in> set (feed since)"
    and "changeOfSnapshot stringToNumber seenIds snapshot = Some c"
    by (auto simp: List.map_filter_def)
  then show ?thesis by blast
qed

text \<open>
  Claim C1, as amended.  Two feed records, possibly seen in separate extraction calls,
  with the same story id, the same effective-change timestamp and the same list of
  changed field names, in the order the previous-values map lists them, get the same
  change id, the hash \<open>simpleHash\<close> of \<open>storyId:changedAt:changedFieldNames\<close> with the names
  joined by commas in that order; a record makes a change with this id unless the id
  has been seen.
\<close>

theorem fetchStoryChanges_changeId:
  assumes "jsNumber stringToNumber1 (getProp snapshot1 ''ObjectID'') = Some n"
    and "jsNumber stringToNumber2 (getProp snapshot2 ''ObjectID'') = Some n"
    and "snapshotValidFrom snapshot1 = snapshotValidFrom snapshot2"
    and "snapshotValidFrom snapshot1 \<noteq> []"
    and "extractChangedFields snapshot1 = extractChangedFields snapshot2"
    and "extractChangedFields snapshot1 \<noteq> []"
  shows "\<exists>c1 c2. changeOfSnapshot stringToNumber1 {} snapshot1 = Some c1
      \<and> changeOfSnapshot stringToNumber2 {} snapshot2 = Some c2
      \<and> changeId c1 = changeId c2
      \<and> changeId c1 = simpleHash (numberToString n @ '':'' @ snapshotValidFrom snapshot1 @ '':''
                         @ join '','' (extractChangedFields snapshot1))
      \<and> (\<forall>seenIds. changeOfSnapshot stringToNumber1 seenIds snapshot1
             = (if changeId c1 \<in> seenIds then None else Some c1))
      \<and> (\<forall>seenIds. changeOfSnapshot stringToNumber2 seenIds snapshot2
             = (if changeId c2 \<in> seenIds then None else Some c2))"
proof -
  from changeOfSnapshot_unseen [OF assms(1,4,6)] obtain c1 where
    c1: "changeOfSnapshot stringToNumber1 {} snapshot1 = Some c1"
      "changeId c1 = simpleHash (numberToString n @ '':'' @ snapshotValidFrom snapshot1 @ '':''
                         @ join '','' (extractChangedFields snapshot1))"
      "\<forall>seenIds. changeOfSnapshot stringToNumber1 seenIds snapshot1
             = (if changeId c1 \<in> seenIds then None else Some c1)"
    by blast
  have v: "snapshotValidFrom snapshot2 \<noteq> []" and f: "extractChangedFields snapshot2 \<noteq> []"
    using assms(3-6) by simp_all
  from changeOfSnapshot_unseen [OF assms(2) v f] obtain c2 where
    c2: "changeOfSnapshot stringToNumber2 {} snapshot2 = Some c2"
      "changeId c2 = simpleHash (numberToString n @ '':'' @ snapshotValidFrom snapshot2 @ '':''
                         @ join '','' (extractChangedFields snapshot2))"
      "\<forall>seenIds. changeOfSnapshot stringToNumber2 seenIds snapshot2
             = (if changeId c2 \<in> seenIds then None else Some c2)"
    by blast
  have "changeId c1 = changeId c2"
    using c1(2) c2(2) assms(3,5) by simp
  with c1 c2 show ?thesis by blast
qed

theorem fetchStoryChanges_changeId_witness:
  "jsNumber sampleStringToNumber
      (getProp (sampleSnapshot 7 ''2024-03-01T00:00:00.000Z''
                  [(''Name'', JStr ''old''), (''Owner'', JNull)]) ''ObjectID'') = Some 7
   \<and> jsNumber sampleStringToNumber
      (getProp [(''_PreviousValues'', JObj [(''Name'', JNum 1), (''_x'', JNull), (''Owner'', JNum 2)]),
                (''_ValidFrom'', JStr ''2024-03-01T00:00:00.000Z''),
                (''ObjectID'', JStr ''7'')] ''ObjectID'') = Some 7
   \<and> extractChangedFields (sampleSnapshot 7 ''2024-03-01T00:00:00.000Z''
                  [(''Name'', JStr ''old''), (''Owner'', JNull)]) = [''Name'', ''Owner'']
   \<and> (\<exists>c1 c2.
         changeOfSnapshot sampleStringToNumber {}
           (sampleSnapshot 7 ''2024-03-01T00:00:00.000Z''
              [(''Name'', JStr ''old''), (''Owner'', JNull)]) = Some c1
       \<and> changeOfSnapshot sampleStringToNumber {}
           [(''_PreviousValues'', JObj [(''Name'', JNum 1), (''_x'', JNull), (''Owner'', JNum 2)]),
            (''_ValidFrom'', JStr ''2024-03-01T00:00:00.000Z''),
            (''ObjectID'', JStr ''7'')] = Some c2
       \<and> changeId c1 = changeId c2
       \<and> changeId c1 = ''7vamrr'')"
proof -
  let ?s1 = "sampleSnapshot 7 ''2024-03-01T00:00:00.000Z''
               [(''Name'', JStr ''old''), (''Owner'', JNull)]"
  let ?s2 = "[(''_PreviousValues'', JObj [(''Name'', JNum 1), (''_x'', JNull), (''Owner'', JNum 2)]),
              (''_ValidFrom'', JStr ''2024-03-01T00:00:00.000Z''),
              (''ObjectID'', JStr ''7'')]"
  have n1: "jsNumber sampleStringToNumber (getProp ?s1 ''ObjectID'') = Some 7"
    by code_simp
  have n2: "jsNumber sampleStringToNumber (getProp ?s2 ''ObjectID'') = Some 7"
    by code_simp
  have v: "snapshotValidFrom ?s1 = snapshotValidFrom ?s2"
    by code_simp
  have v1: "snapshotValidFrom ?s1 = ''2024-03-01T00:00:00.000Z''"
    by code_simp
  then have v0: "snapshotValidFrom ?s1 \<noteq> []"
    by simp
  have f1: "extractChangedFields ?s1 = [''Name'', ''Owner'']"
    by code_simp
  have f: "extractChangedFields ?s1 = extractChangedFields ?s2"
    by code_simp
  have f0: "extractChangedFields ?s1 \<noteq> []"
    by (simp add: f1)
  have h: "simpleHash (numberToString 7 @ '':'' @ ''2024-03-01T00:00:00.000Z'' @ '':''
                         @ join '','' [''Name'', ''Owner'']) = ''7vamrr''"
    by code_simp
  from fetchStoryChanges_changeId [OF n1 n2 v v0 f f0]
  have "\<exists>c1 c2.
         changeOfSnapshot sampleStringToNumber {} ?s1 = Some c1
       \<and> changeOfSnapshot sampleStringToNumber {} ?s2 = Some c2
       \<and> changeId c1 = changeId c2
       \<and> changeId c1 = ''7vamrr''"
    unfolding v1 f1 h by blast
  with n1 n2 f1 show ?thesis
    by (simp only: simp_thms)
qed

text \<open>
  The claim as stated fails for the same field names in another order: the names are
  joined in the order of the previous-values map, without sorting.
\<close>

theorem fetchStoryChanges_changeId_order:
  "set (extractChangedFields (sampleSnapshot 7 ''2024-03-01T00:00:00.000Z''
            [(''Name'', JStr ''old''), (''Owner'', JNull)]))
     = set (extractChangedFields (sampleSnapshot 7 ''2024-03-01T00:00:00.000Z''
            [(''Owner'', JNull), (''Name'', JStr ''old'')]))
   \<and> map_option changeId (changeOfSnapshot sampleStringToNumber {}
        (sampleSnapshot 7 ''2024-03-01T00:00:00.000Z''
           [(''Name'', JStr ''old''), (''Owner'', JNull)]))
      = Some ''7vamrr''
   \<and> map_option changeId (changeOfSnapshot sampleStringToNumber {}
        (sampleSnapshot 7 ''2024-03-01T00:00:00.000Z''
           [(''Owner'', JNull), (''Name'', JStr ''old'')]))
      = Some ''ncgllz''"
  by code_simp

text \<open>
  Claim C8, as amended.  Every change \<open>fetchStoryChanges\<close> returns comes from a feed
  record, and its \<open>changedFields\<close> is the list of the keys of the record's
  \<open>_PreviousValues\<close> object that do not start with an underscore, in the object's order;
  the list is not empty.  A record for which this list is empty produces no change.
\<close>

theorem fetchStoryChanges_changedFields:
  "(\<forall>result c.
       fetchStoryChanges dateParse isoFormat stringToNumber localeCompare nowIso config
           cursorText seenIds liveStories feed = Inr result
       \<and> c \<in> set (newChanges result)
     \<longrightarrow> (\<exists>since snapshot. snapshot \<in> set (feed since)
            \<and> changeOfSnapshot stringToNumber seenIds snapshot = Some c
            \<and> changedFields c
                = filter (\<lambda>field. \<not> startsWithUnderscore field)
                    (Object_keys (extractPreviousValues snapshot))
            \<and> changedFields c \<noteq> []))
   \<and> (filter (\<lambda>field. \<not> startsWithUnderscore field)
         (Object_keys (extractPreviousValues feedRecord)) = []
       \<longrightarrow> changeOfSnapshot stringToNumber seenIds feedRecord = None)"
proof -
  have a: "\<exists>since snapshot. snapshot \<in> set (feed since)
            \<and> changeOfSnapshot stringToNumber seenIds snapshot = Some c
            \<and> changedFields c
                = filter (\<lambda>field. \<not> startsWithUnderscore field)
                    (Object_keys (extractPreviousValues snapshot))
            \<and> changedFields c \<noteq> []"
    if r: "fetchStoryChanges dateParse isoFormat stringToNumber localeCompare nowIso config
           cursorText seenIds liveStories feed = Inr result"
      and c: "c \<in> set (newChanges result)"
    for result c
  proof -
    from fetchStoryChanges_newChanges [OF r c] obtain since snapshot where
      s: "snapshot \<in> set (feed since)"
        "changeOfSnapshot stringToNumber seenIds snapshot = Some c"
      by blast
    from changeOfSnapshot_Some [OF s(2)]
    have "changedFields c = extractChangedFields snapshot" "changedFields c \<noteq> []"
      by blast+
    with s show ?thesis
      unfolding extractChangedFields_def by blast
  qed
  have b: "changeOfSnapshot stringToNumber seenIds feedRecord = None"
    if "filter (\<lambda>field. \<not> startsWithUnderscore field)
         (Object_keys (extractPreviousValues feedRecord)) = []"
    using that
    by (simp add: changeOfSnapshot_def extractChangedFields_def Let_def split: option.splits)
  from a b show ?thesis by blast
qed

theorem fetchStoryChanges_changedFields_witness:
  "fetchStoryChanges sampleParse sampleIso sampleStringToNumber (\<lambda>a b. 0)
       ''2024-03-01T00:00:05.000Z'' (sampleTracker ''1'' [''2''] ''3'' ''2024-01-01T00:00:00.000Z'')
       ''2024-01-01T01:00:00.000Z'' {} [] sampleFeed
     = Inr \<lparr>currentStories = [],
            newChanges = [\<lparr>changeId = ''5lj50g'', storyObjectId = 7,
                           changedAt = ''2024-03-01T00:00:00.000Z'',
                           changedFields = [''Name''], changedBy = Some ''pat''\<rparr>],
            result_cursor = ''2024-03-01T00:00:05.000Z'', errors = None\<rparr>
   \<and> (\<exists>since snapshot. snapshot \<in> set (sampleFeed since)
         \<and> [''Name''] = filter (\<lambda>field. \<not> startsWithUnderscore field)
                          (Object_keys (extractPreviousValues snapshot)))
   \<and> filter (\<lambda>field. \<not> startsWithUnderscore field)
        (Object_keys (extractPreviousValues
           (sampleSnapshot 7 ''2024-01-01T00:00:00.000Z''
              [(''_ValidTo'', JStr ''9999-01-01T00:00:00.000Z'')]))) = []
   \<and> changeOfSnapshot sampleStringToNumber {}
        (sampleSnapshot 7 ''2024-01-01T00:00:00.000Z''
           [(''_ValidTo'', JStr ''9999-01-01T00:00:00.000Z'')]) = None"
proof -
  let ?c = "\<lparr>changeId = ''5lj50g'', storyObjectId = 7,
             changedAt = ''2024-03-01T00:00:00.000Z'',
             changedFields = [''Name''], changedBy = Some ''pat''\<rparr>"
  let ?r = "\<lparr>currentStories = [], newChanges = [?c],
             result_cursor = ''2024-03-01T00:00:05.000Z'', errors = None\<rparr>"
  let ?s = "sampleSnapshot 7 ''2024-01-01T00:00:00.000Z''
              [(''_ValidTo'', JStr ''9999-01-01T00:00:00.000Z'')]"
  have r: "fetchStoryChanges sampleParse sampleIso sampleStringToNumber (\<lambda>a b. 0)
       ''2024-03-01T00:00:05.000Z'' (sampleTracker ''1'' [''2''] ''3'' ''2024-01-01T00:00:00.000Z'')
       ''2024-01-01T01:00:00.000Z'' {} [] sampleFeed = Inr ?r"
    by code_simp
  have e: "filter (\<lambda>field. \<not> startsWithUnderscore field)
        (Object_keys (extractPreviousValues ?s)) = []"
    by code_simp
  note w = fetchStoryChanges_changedFields
    [where dateParse = sampleParse and isoFormat = sampleIso
       and stringToNumber = sampleStringToNumber and localeCompare = "\<lambda>a b. 0"
       and nowIso = "''2024-03-01T00:00:05.000Z''"
       and config = "sampleTracker ''1'' [''2''] ''3'' ''2024-01-01T00:00:00.000Z''"
       and cursorText = "''2024-01-01T01:00:00.000Z''" and seenIds = "{}"
       and liveStories = "[]" and feed = sampleFeed and feedRecord = ?s]
  have m: "?c \<in> set (newChanges ?r)"
    by simp
  from w r m have "\<exists>since snapshot. snapshot \<in> set (sampleFeed since)
         \<and> changeOfSnapshot sampleStringToNumber {} snapshot = Some ?c
         \<and> changedFields ?c = filter (\<lambda>field. \<not> startsWithUnderscore field)
                          (Object_keys (extractPreviousValues snapshot))
         \<and> changedFields ?c \<noteq> []"
    by blast
  then have x: "\<exists>since snapshot. snapshot \<in> set (sampleFeed since)
         \<and> [''Name''] = filter (\<lambda>field. \<not> startsWithUnderscore field)
                          (Object_keys (extractPreviousValues snapshot))"
    by auto
  from w e have n: "changeOfSnapshot sampleStringToNumber {} ?s = None"
    by blast
  from r x e n show ?thesis
    by (simp only: simp_thms)
qed

text \<open>
  The claim as stated fails for a previous-values object with a key that starts with
  an underscore: the key is not among the changed fields.
\<close>

theorem fetchStoryChanges_drops_underscore_keys:
  "Object_keys (extractPreviousValues
      (sampleSnapshot 7 ''2024-03-01T00:00:00.000Z''
         [(''_ValidTo'', JStr ''9999-01-01T00:00:00.000Z''), (''Name'', JStr ''old'')]))
     = [''_ValidTo'', ''Name'']
   \<and> map_option changedFields (changeOfSnapshot sampleStringToNumber {}
        (sampleSnapshot 7 ''2024-03-01T00:00:00.000Z''
           [(''_ValidTo'', JStr ''9999-01-01T00:00:00.000Z''), (''Name'', JStr ''old'')]))
      = Some [''Name'']
   \<and> ''_ValidTo'' \<notin> set [''Name'']"
  by code_simp

end
